theory Spec2Isabelle
  imports Main
begin

section \<open>Data model\<close>

text \<open>
  The embedding follows \<^verbatim>\<open>src/fetch.js\<close>. The values exchanged with the platform are
  JSON objects, modelled as records. The parts of an answer that may be missing are
  options: the member data of a challenge (\<^verbatim>\<open>member\<close>, its \<^verbatim>\<open>boost\<close> and its
  \<^verbatim>\<open>ranking\<close>), the exposure data (\<^verbatim>\<open>voting\<close> and the \<^verbatim>\<open>exposure\<close> of a voting or
  of a ranking), the ranking entries, the images and the boost deadline. Reading a
  property of a missing object raises a TypeError, with the message of Node.js.
  JavaScript numbers are modelled as integers (the platform's exposure points and epoch
  seconds).
\<close>

text \<open>An element of \<^verbatim>\<open>images\<close>: \<^verbatim>\<open>img.id\<close>, \<^verbatim>\<open>img.ratio\<close>.\<close>

record vote_image =
  image_id :: string
  ratio :: int

text \<open>\<^verbatim>\<open>voting.exposure\<close> and \<^verbatim>\<open>challenge.member.ranking.exposure\<close>.\<close>

record exposure =
  exposure_factor :: int

record voting =
  voting_exposure :: "exposure option"

text \<open>An element of \<^verbatim>\<open>member.ranking.entries\<close>.\<close>

record entry =
  entry_id :: string
  turbo :: bool

record ranking =
  ranking_exposure :: "exposure option"
  entries :: "entry list option"

text \<open>\<^verbatim>\<open>challenge.member.boost\<close>; \<^verbatim>\<open>timeout\<close> is the boost deadline in epoch seconds.\<close>

record boost =
  state :: string
  timeout :: "int option"

record member =
  member_boost :: "boost option"
  member_ranking :: "ranking option"

record challenge =
  challenge_id :: string
  title :: string
  url :: string
  start_time :: int
  challenge_member :: "member option"

text \<open>The answer of \<^verbatim>\<open>get_vote_images\<close>: \<^verbatim>\<open>{challenge, voting, images}\<close>.\<close>

record vote_images =
  vi_challenge :: challenge
  vi_voting :: "voting option"
  vi_images :: "vote_image list option"

text \<open>
  The body of a response, a JSON object (so it is truthy): the active challenges, the
  vote images, or anything else (the acknowledgement of a vote or of a boost).
\<close>

datatype response =
    Challenges "challenge list"
  | VoteImages vote_images
  | Ack

text \<open>
  A URL-encoded form body is kept as the list of its \<^verbatim>\<open>key=value\<close> parameters, in
  order, with the values before \<^verbatim>\<open>encodeURIComponent\<close>.
\<close>

type_synonym formdata = "(string \<times> string) list"

definition params :: "string \<Rightarrow> formdata \<Rightarrow> string list" where
  "params key data = map snd (filter (\<lambda>p. fst p = key) data)"

section \<open>Console output and requests\<close>

text \<open>One constructor for each message of the module, with the interpolated values.\<close>

datatype message =
    TokenMustBeSet
  | PostRequestFailed string
  | GettingActiveChallenges
  | FailedToFetchActiveChallenges
  | FetchingVoteImages string
  | NoImagesAvailable string
  | FetchedImages nat string
  | NoImagesToVoteOn string
  | NotEnoughImages string
  | FailedToSubmitVotes string
  | VotesSubmitted string
  | NoNonTurboedEntries
  | FailedToApplyBoost string
  | BoostApplied string
  | BoostAvailable string
  | ExecutingBoost int
  | ErrorDuringBoost string
  | ErrorVotingOnChallenge string
  | ErrorMessage string
  | VotingCompleted

text \<open>
  What the process does to the outside: the three console channels, a POST request
  (URL and form body; the headers are the constant bundle) and the pacing delay in
  milliseconds.
\<close>

datatype event =
    Log message
  | Warn message
  | Error message
  | Post string formdata
  | Sleep nat

text \<open>
  The mutable world: the events so far, the number of requests sent and the number of
  \<^verbatim>\<open>Math.random()\<close> calls made.
\<close>

record world =
  out :: "event list"
  reqs :: nat
  rpos :: nat

text \<open>
  The environment: \<^verbatim>\<open>process.env.TOKEN\<close>, \<^verbatim>\<open>Date.now()\<close> in milliseconds, the answer of
  the server to the n-th request (\<open>None\<close> when \<^verbatim>\<open>axios\<close> rejects: network error, timeout,
  status outside 2xx), and the outcomes of \<^verbatim>\<open>Math.random()\<close>. A call
  \<^verbatim>\<open>Math.floor(Math.random() * n)\<close> is an integer in \<open>[0, n)\<close>: the k-th call yields
  \<open>random env k mod n\<close>.
\<close>

record env =
  token :: "string option"
  date_now :: int
  axios :: "nat \<Rightarrow> string \<Rightarrow> formdata \<Rightarrow> response option"
  random :: "nat \<Rightarrow> nat"

section \<open>The selection loop of submitVotes\<close>

text \<open>
  The local variables of the loop. \<^verbatim>\<open>uniqueImageIds\<close> is a \<^verbatim>\<open>Set\<close>, kept as the list of
  its elements in insertion order; \<^verbatim>\<open>votedImages\<close> is the \<^verbatim>\<open>image_ids[]\<close> part of the
  form body.
\<close>

record selection =
  uniqueImageIds :: "string list"
  votedImages :: formdata
  exposureFactor :: int

definition set_has :: "string list \<Rightarrow> string \<Rightarrow> bool" where
  "set_has s x = (x \<in> set s)"

definition set_add :: "string list \<Rightarrow> string \<Rightarrow> string list" where
  "set_add s x = (if x \<in> set s then s else s @ [x])"

text \<open>
  One iteration of the body of \<^verbatim>\<open>while (exposure_factor < 100)\<close>, lines 157 to 170. The
  result says whether the iteration left the loop through \<^verbatim>\<open>break\<close>. The pool is not
  empty here (line 140 returns before the loop otherwise).
\<close>

definition loopBody ::
  "vote_image list \<Rightarrow> string \<Rightarrow> (nat \<Rightarrow> nat) \<Rightarrow> selection \<times> world \<Rightarrow> bool \<times> selection \<times> world" where
  "loopBody imgs ttl rnd sw =
     (let sel = fst sw; w = snd sw;
          randomImage = imgs ! (rnd (rpos w) mod length imgs);
          w1 = w\<lparr>rpos := rpos w + 1\<rparr>
      in if set_has (uniqueImageIds sel) (image_id randomImage) then (False, sel, w1)
         else
           let sel1 = sel\<lparr>uniqueImageIds := set_add (uniqueImageIds sel) (image_id randomImage),
                          votedImages := votedImages sel @ [(''image_ids[]'', image_id randomImage)],
                          exposureFactor := exposureFactor sel + ratio randomImage\<rparr>
           in if length (uniqueImageIds sel1) = length imgs
              then (True, sel1, w1\<lparr>out := out w1 @ [Warn (NotEnoughImages ttl)]\<rparr>)
              else (False, sel1, w1))"

text \<open>
  The loop itself. It may run forever, so it is a partial function: \<open>None\<close> is a run
  that never leaves the loop.
\<close>

partial_function (option) selectLoop ::
  "vote_image list \<Rightarrow> string \<Rightarrow> (nat \<Rightarrow> nat) \<Rightarrow> selection \<times> world \<Rightarrow> (selection \<times> world) option" where
  [code]: "selectLoop imgs ttl rnd sw =
     (if exposureFactor (fst sw) < 100
      then (case loopBody imgs ttl rnd sw of
              (break, sw') \<Rightarrow> if break then Some sw' else selectLoop imgs ttl rnd sw')
      else Some sw)"

definition initialSelection :: "int \<Rightarrow> selection" where
  "initialSelection e = \<lparr>uniqueImageIds = [], votedImages = [], exposureFactor = e\<rparr>"

section \<open>Effects\<close>

text \<open>
  An asynchronous function of the module either returns, throws (the string is
  \<^verbatim>\<open>error.message\<close>), or ends the process through \<^verbatim>\<open>process.exit\<close>; and it may not end
  at all (\<open>None\<close>), because the selection loop may not.
\<close>

datatype 'a outcome = Return 'a | Throw string | Exit

type_synonym 'a io = "world \<Rightarrow> ('a outcome \<times> world) option"

definition ret :: "'a \<Rightarrow> 'a io" where
  "ret x w = Some (Return x, w)"

definition throw :: "string \<Rightarrow> 'a io" where
  "throw e w = Some (Throw e, w)"

definition andThen :: "'a io \<Rightarrow> ('a \<Rightarrow> 'b io) \<Rightarrow> 'b io" where
  "andThen m f w =
     (case m w of
        None \<Rightarrow> None
      | Some (Return x, w') \<Rightarrow> f x w'
      | Some (Throw e, w') \<Rightarrow> Some (Throw e, w')
      | Some (Exit, w') \<Rightarrow> Some (Exit, w'))"

text \<open>\<^verbatim>\<open>try { m } catch (error) { h(error) }\<close>: only a thrown error reaches the handler.\<close>

definition tryCatch :: "'a io \<Rightarrow> (string \<Rightarrow> 'a io) \<Rightarrow> 'a io" where
  "tryCatch m h w =
     (case m w of
        None \<Rightarrow> None
      | Some (Return x, w') \<Rightarrow> Some (Return x, w')
      | Some (Throw e, w') \<Rightarrow> h e w'
      | Some (Exit, w') \<Rightarrow> Some (Exit, w'))"

definition emit :: "event \<Rightarrow> unit io" where
  "emit e w = Some (Return (), w\<lparr>out := out w @ [e]\<rparr>)"

section \<open>Requests\<close>

text \<open>The four endpoints.\<close>

definition active_challenges_url :: string where
  "active_challenges_url = ''https://api.gurushots.com/rest_mobile/get_my_active_challenges''"

definition vote_images_url :: string where
  "vote_images_url = ''https://api.gurushots.com/rest_mobile/get_vote_images''"

definition submit_vote_url :: string where
  "submit_vote_url = ''https://api.gurushots.com/rest_mobile/submit_vote''"

definition boost_photo_url :: string where
  "boost_photo_url = ''https://api.gurushots.com/rest_mobile/boost_photo''"

text \<open>
  \<^verbatim>\<open>makePostRequest\<close>: without a token the process exits; a rejected request is logged
  and answered with \<^verbatim>\<open>null\<close>.
\<close>

definition makePostRequest :: "env \<Rightarrow> string \<Rightarrow> formdata \<Rightarrow> response option io" where
  "makePostRequest env u data w =
     (if token env = None \<or> token env = Some []
      then Some (Exit, w\<lparr>out := out w @ [Error TokenMustBeSet]\<rparr>)
      else
        let w1 = w\<lparr>out := out w @ [Post u data], reqs := reqs w + 1\<rparr>
        in case axios env (reqs w) u data of
             Some r \<Rightarrow> Some (Return (Some r), w1)
           | None \<Rightarrow> Some (Return None, w1\<lparr>out := out w1 @ [Error (PostRequestFailed u)]\<rparr>))"

definition getActiveChallenges :: "env \<Rightarrow> response io" where
  "getActiveChallenges env =
     andThen (emit (Log GettingActiveChallenges)) (\<lambda>_.
     andThen (makePostRequest env active_challenges_url []) (\<lambda>response.
       case response of
         None \<Rightarrow> andThen (emit (Error FailedToFetchActiveChallenges)) (\<lambda>_. ret (Challenges []))
       | Some r \<Rightarrow> ret r))"

definition getVoteImages :: "env \<Rightarrow> challenge \<Rightarrow> vote_images option io" where
  "getVoteImages env c =
     andThen (emit (Log (FetchingVoteImages (title c)))) (\<lambda>_.
     let data = [(''limit'', ''100''), (''url'', url c)] in
     andThen (makePostRequest env vote_images_url data) (\<lambda>response.
       case response of
         Some (VoteImages v) \<Rightarrow>
           (case vi_images v of
              None \<Rightarrow> andThen (emit (Warn (NoImagesAvailable (title c)))) (\<lambda>_. ret None)
            | Some imgs \<Rightarrow>
                if length imgs = 0
                then andThen (emit (Warn (NoImagesAvailable (title c)))) (\<lambda>_. ret None)
                else andThen (emit (Log (FetchedImages (length imgs) (title c)))) (\<lambda>_. ret (Some v)))
       | _ \<Rightarrow> andThen (emit (Warn (NoImagesAvailable (title c)))) (\<lambda>_. ret None)))"

section \<open>submitVotes\<close>

text \<open>
  Lines 146 to 171 as one step: the selection loop, run from the initial values of its
  variables. The step does not return when the loop does not.
\<close>

definition runSelectLoop :: "vote_image list \<Rightarrow> string \<Rightarrow> (nat \<Rightarrow> nat) \<Rightarrow> int \<Rightarrow> selection io" where
  "runSelectLoop imgs ttl rnd e w =
     (case selectLoop imgs ttl rnd (initialSelection e, w) of
        None \<Rightarrow> None
      | Some (sel, w') \<Rightarrow> Some (Return sel, w'))"

definition submitVotes :: "env \<Rightarrow> vote_images \<Rightarrow> response option io" where
  "submitVotes env voteImages =
     (let ch = vi_challenge voteImages;
          noImages = andThen (emit (Warn (NoImagesToVoteOn (title ch)))) (\<lambda>_. ret None)
      in case vi_images voteImages of
           None \<Rightarrow> noImages
         | Some imgs \<Rightarrow>
             if length imgs = 0 then noImages
             else
               let viewedImages = map (\<lambda>img. (''viewed_image_ids[]'', image_id img)) imgs
               in case vi_voting voteImages of
                    None \<Rightarrow> throw ''Cannot read properties of undefined (reading 'exposure')''
                  | Some v \<Rightarrow>
                      (case voting_exposure v of
                         None \<Rightarrow> throw ''Cannot destructure property 'exposure_factor' of 'voting.exposure' as it is undefined.''
                       | Some e \<Rightarrow>
                           andThen (runSelectLoop imgs (title ch) (random env) (exposure_factor e)) (\<lambda>sel.
                           let data = [(''c_id'', challenge_id ch)] @ votedImages sel
                                      @ [(''layout'', ''scroll'')] @ viewedImages
                           in andThen (makePostRequest env submit_vote_url data) (\<lambda>response.
                                case response of
                                  None \<Rightarrow> andThen (emit (Error (FailedToSubmitVotes (title ch)))) (\<lambda>_. ret None)
                                | Some r \<Rightarrow> andThen (emit (Log (VotesSubmitted (title ch)))) (\<lambda>_. ret (Some r))))))"

section \<open>applyBoost\<close>

fun getFirstNonTurboKey :: "entry list \<Rightarrow> string option" where
  "getFirstNonTurboKey [] = None"
| "getFirstNonTurboKey (e # es) = (if \<not> turbo e then Some (entry_id e) else getFirstNonTurboKey es)"

definition applyBoost :: "env \<Rightarrow> challenge \<Rightarrow> response option io" where
  "applyBoost env c =
     (let noEntries = andThen (emit (Error NoNonTurboedEntries)) (\<lambda>_. ret None)
      in case challenge_member c of
           None \<Rightarrow> throw ''Cannot read properties of undefined (reading 'ranking')''
         | Some m \<Rightarrow>
             (case member_ranking m of
                None \<Rightarrow> throw ''Cannot read properties of undefined (reading 'entries')''
              | Some r \<Rightarrow>
                  (case entries r of
                     None \<Rightarrow> throw ''Cannot read properties of undefined (reading 'length')''
                   | Some es \<Rightarrow>
                       (case getFirstNonTurboKey es of
                          None \<Rightarrow> noEntries
                        | Some boostImageId \<Rightarrow>
                            if boostImageId = [] then noEntries
                            else
                              let data = [(''c_id'', challenge_id c), (''image_id'', boostImageId)]
                              in andThen (makePostRequest env boost_photo_url data)
                                   (\<lambda>response.
                                      case response of
                                        None \<Rightarrow> andThen (emit (Error (FailedToApplyBoost (challenge_id c)))) (\<lambda>_. ret None)
                                      | Some r \<Rightarrow> andThen (emit (Log (BoostApplied boostImageId))) (\<lambda>_. ret (Some r)))))))"

section \<open>The orchestrator: fetchChallengesAndVote\<close>

text \<open>\<^verbatim>\<open>Math.floor(Math.random() * (max - min + 1) + min)\<close>, for integers \<open>min \<le> max\<close>.\<close>

definition getRandomDelay :: "env \<Rightarrow> nat \<Rightarrow> nat \<Rightarrow> nat io" where
  "getRandomDelay env mn mx w =
     Some (Return (mn + random env (rpos w) mod (mx - mn + 1)), w\<lparr>rpos := rpos w + 1\<rparr>)"

definition sleep :: "nat \<Rightarrow> unit io" where
  "sleep ms = emit (Sleep ms)"

text \<open>
  Lines 286 to 301. The reads of lines 286 and 287 are outside the \<^verbatim>\<open>try\<close>: a missing
  \<^verbatim>\<open>member\<close> or \<^verbatim>\<open>boost\<close> throws. \<^verbatim>\<open>boost.timeout\<close> is tested for truthiness: a missing
  deadline and the number 0 are both falsy.
\<close>

definition boostStep :: "env \<Rightarrow> int \<Rightarrow> challenge \<Rightarrow> unit io" where
  "boostStep env now c =
     (case challenge_member c of
        None \<Rightarrow>
          throw ''Cannot destructure property 'boost' of 'challenge.member' as it is undefined.''
      | Some m \<Rightarrow>
          (case member_boost m of
             None \<Rightarrow> throw ''Cannot read properties of undefined (reading 'state')''
           | Some b \<Rightarrow>
               (case timeout b of
                  None \<Rightarrow> ret ()
                | Some t \<Rightarrow>
                    if state b = ''AVAILABLE'' \<and> t \<noteq> 0
                    then
                      andThen (emit (Log (BoostAvailable (title c)))) (\<lambda>_.
                      let boostTimeout = 10 * 60;
                          timeUntilDeadline = t - now
                      in if timeUntilDeadline \<le> boostTimeout \<and> timeUntilDeadline > 0
                         then
                           andThen (emit (Log (ExecutingBoost (timeUntilDeadline div 60)))) (\<lambda>_.
                           tryCatch (andThen (applyBoost env c) (\<lambda>_. ret ()))
                             (\<lambda>err. emit (Error (ErrorDuringBoost err))))
                         else ret ())
                    else ret ())))"

text \<open>The body of the second \<^verbatim>\<open>try\<close>, lines 306 to 313.\<close>

definition voteBody :: "env \<Rightarrow> challenge \<Rightarrow> unit io" where
  "voteBody env c =
     andThen (getVoteImages env c) (\<lambda>voteImages.
       case voteImages of
         None \<Rightarrow> ret ()
       | Some v \<Rightarrow>
           andThen (submitVotes env v) (\<lambda>_.
           andThen (getRandomDelay env 2000 5000) (\<lambda>ms. sleep ms)))"

text \<open>Lines 303 to 318. The condition of the \<^verbatim>\<open>if\<close> is read outside the \<^verbatim>\<open>try\<close>.\<close>

definition voteStep :: "env \<Rightarrow> int \<Rightarrow> challenge \<Rightarrow> unit io" where
  "voteStep env now c =
     (case challenge_member c of
        None \<Rightarrow> throw ''Cannot read properties of undefined (reading 'ranking')''
      | Some m \<Rightarrow>
          (case member_ranking m of
             None \<Rightarrow> throw ''Cannot read properties of undefined (reading 'exposure')''
           | Some r \<Rightarrow>
               (case ranking_exposure r of
                  None \<Rightarrow> throw ''Cannot read properties of undefined (reading 'exposure_factor')''
                | Some e \<Rightarrow>
                    if exposure_factor e < 100 \<and> start_time c < now
                    then tryCatch (voteBody env c)
                           (\<lambda>err. andThen (emit (Error (ErrorVotingOnChallenge (title c)))) (\<lambda>_.
                                   emit (Error (ErrorMessage err))))
                    else ret ())))"

definition processChallenge :: "env \<Rightarrow> int \<Rightarrow> challenge \<Rightarrow> unit io" where
  "processChallenge env now c = andThen (boostStep env now c) (\<lambda>_. voteStep env now c)"

text \<open>\<^verbatim>\<open>for (const challenge of challenges)\<close>: an uncaught error ends the loop.\<close>

fun challengeLoop :: "env \<Rightarrow> int \<Rightarrow> challenge list \<Rightarrow> unit io" where
  "challengeLoop env now [] = ret ()"
| "challengeLoop env now (c # cs) =
     andThen (processChallenge env now c) (\<lambda>_. challengeLoop env now cs)"

definition fetchChallengesAndVote :: "env \<Rightarrow> unit io" where
  "fetchChallengesAndVote env =
     andThen (getActiveChallenges env) (\<lambda>response.
     let now = date_now env div 1000
     in case response of
          Challenges cs \<Rightarrow> andThen (challengeLoop env now cs) (\<lambda>_. emit (Log VotingCompleted))
        | _ \<Rightarrow> throw ''challenges is not iterable'')"


section \<open>Observing a run\<close>

text \<open>The events a step has added to the world.\<close>

definition newEvents :: "world \<Rightarrow> world \<Rightarrow> event list" where
  "newEvents w w' = drop (length (out w)) (out w')"

text \<open>The form bodies sent to \<^verbatim>\<open>submit_vote\<close>, in order.\<close>

fun submission :: "event \<Rightarrow> formdata list" where
  "submission (Post u d) = (if u = submit_vote_url then [d] else [])"
| "submission _ = []"

definition submissions :: "event list \<Rightarrow> formdata list" where
  "submissions evs = concat (map submission evs)"

text \<open>The form bodies sent to \<^verbatim>\<open>boost_photo\<close>, in order.\<close>

fun boostRequest :: "event \<Rightarrow> formdata list" where
  "boostRequest (Post u d) = (if u = boost_photo_url then [d] else [])"
| "boostRequest _ = []"

definition boostRequests :: "event list \<Rightarrow> formdata list" where
  "boostRequests evs = concat (map boostRequest evs)"

text \<open>
  A boost is attempted when line 294 is logged: \<^verbatim>\<open>applyBoost\<close> is called right after it
  and nowhere else.
\<close>

fun isExecutingBoost :: "event \<Rightarrow> bool" where
  "isExecutingBoost (Log (ExecutingBoost m)) = True"
| "isExecutingBoost _ = False"

definition boostAttempted :: "event list \<Rightarrow> bool" where
  "boostAttempted evs = list_ex isExecutingBoost evs"

text \<open>
  The pool of a challenge is fetched when \<^verbatim>\<open>getVoteImages\<close> is called: its first
  statement logs line 104.
\<close>

definition poolFetched :: "challenge \<Rightarrow> event list \<Rightarrow> bool" where
  "poolFetched c evs = list_ex (\<lambda>ev. ev = Log (FetchingVoteImages (title c))) evs"

text \<open>\<^verbatim>\<open>process.env.TOKEN\<close> is set and not empty.\<close>

definition tokenSet :: "env \<Rightarrow> bool" where
  "tokenSet env = (token env \<noteq> None \<and> token env \<noteq> Some [])"

text \<open>A step only adds events.\<close>

definition growing :: "'a io \<Rightarrow> bool" where
  "growing m = (\<forall>w r w'. m w = Some (r, w') \<longrightarrow> (\<exists>evs. out w' = out w @ evs))"

text \<open>Every run of a step begins by adding the event \<open>e\<close>.\<close>

definition startsWith :: "event \<Rightarrow> 'a io \<Rightarrow> bool" where
  "startsWith e m = (\<forall>w r w'. m w = Some (r, w') \<longrightarrow> (\<exists>evs. out w' = out w @ e # evs))"

section \<open>Draw sequences and example inputs\<close>

text \<open>
  A sequence of draws is fair for a pool of \<open>n\<close> images when every index keeps being
  drawn: after any number of draws, each index below \<open>n\<close> is drawn again.
\<close>

definition fairDraws :: "(nat \<Rightarrow> nat) \<Rightarrow> nat \<Rightarrow> bool" where
  "fairDraws rnd n = (\<forall>k. \<forall>i<n. \<exists>j\<ge>k. rnd j mod n = i)"

text \<open>The draws 0, 1, 2, ... and the draws 1, 2, 3, ...\<close>

definition roundRobin :: "nat \<Rightarrow> nat" where
  "roundRobin k = k"

definition shiftedRobin :: "nat \<Rightarrow> nat" where
  "shiftedRobin k = k + 1"

text \<open>The world before anything has happened.\<close>

definition startWorld :: world where
  "startWorld = \<lparr>out = [], reqs = 0, rpos = 0\<rparr>"

text \<open>
  Pools: the example of the specification; two images that share one identifier; one
  image with a negative ratio; one image that alone reaches the target from 60.
\<close>

definition pool_abc :: "vote_image list" where
  "pool_abc = [\<lparr>image_id = ''a'', ratio = 40\<rparr>, \<lparr>image_id = ''b'', ratio = 30\<rparr>,
               \<lparr>image_id = ''c'', ratio = 50\<rparr>]"

definition pool_twins :: "vote_image list" where
  "pool_twins = [\<lparr>image_id = ''a'', ratio = 10\<rparr>, \<lparr>image_id = ''a'', ratio = 10\<rparr>]"

definition pool_negative :: "vote_image list" where
  "pool_negative = [\<lparr>image_id = ''a'', ratio = - 5\<rparr>]"

definition pool_single :: "vote_image list" where
  "pool_single = [\<lparr>image_id = ''a'', ratio = 50\<rparr>]"

text \<open>
  Challenges: started at second 10, boost available until second 1300, two ranking
  entries of which the second is not turboed.
\<close>

definition mkChallenge :: "string \<Rightarrow> int \<Rightarrow> int \<Rightarrow> challenge" where
  "mkChallenge name start e =
     \<lparr>challenge_id = name, title = name, url = name, start_time = start,
      challenge_member =
        Some \<lparr>member_boost = Some \<lparr>state = ''AVAILABLE'', timeout = Some 1300\<rparr>,
              member_ranking =
                Some \<lparr>ranking_exposure = Some \<lparr>exposure_factor = e\<rparr>,
                      entries = Some [\<lparr>entry_id = ''e1'', turbo = True\<rparr>,
                                      \<lparr>entry_id = ''e2'', turbo = False\<rparr>]\<rparr>\<rparr>\<rparr>"

definition challenge_one :: challenge where
  "challenge_one = mkChallenge ''one'' 10 60"

definition challenge_two :: challenge where
  "challenge_two = mkChallenge ''two'' 10 60"

definition challenge_three :: challenge where
  "challenge_three = mkChallenge ''three'' 10 60"

text \<open>
  A challenge that starts at second 1000, one whose ranking is missing, and one whose
  member data is missing.
\<close>

definition challenge_now :: challenge where
  "challenge_now = mkChallenge ''now'' 1000 50"

definition challenge_broken :: challenge where
  "challenge_broken =
     \<lparr>challenge_id = ''broken'', title = ''broken'', url = ''broken'', start_time = 10,
      challenge_member =
        Some \<lparr>member_boost = Some \<lparr>state = ''USED'', timeout = None\<rparr>, member_ranking = None\<rparr>\<rparr>"

definition challenge_memberless :: challenge where
  "challenge_memberless =
     \<lparr>challenge_id = ''memberless'', title = ''memberless'', url = ''memberless'', start_time = 10,
      challenge_member = None\<rparr>"

text \<open>The answer of \<^verbatim>\<open>get_vote_images\<close> for a challenge: the pool a, b, c at exposure \<open>e\<close>.\<close>

definition votes_abc :: "challenge \<Rightarrow> int \<Rightarrow> vote_images" where
  "votes_abc c e =
     \<lparr>vi_challenge = c, vi_voting = Some \<lparr>voting_exposure = Some \<lparr>exposure_factor = e\<rparr>\<rparr>,
      vi_images = Some pool_abc\<rparr>"

text \<open>
  Servers. The first acknowledges every request. The second has three active challenges
  and answers the vote images of the second one without its \<^verbatim>\<open>voting\<close> data. The third
  and the fourth have two active challenges, the first of them without its ranking or
  without its member data.
\<close>

definition ackServer :: "nat \<Rightarrow> string \<Rightarrow> formdata \<Rightarrow> response option" where
  "ackServer n u d = Some Ack"

definition server3 :: "nat \<Rightarrow> string \<Rightarrow> formdata \<Rightarrow> response option" where
  "server3 n u d =
     (if u = active_challenges_url
      then Some (Challenges [challenge_one, challenge_two, challenge_three])
      else if u = vote_images_url
      then (if d = [(''limit'', ''100''), (''url'', ''one'')]
            then Some (VoteImages (votes_abc challenge_one 60))
            else if d = [(''limit'', ''100''), (''url'', ''two'')]
            then Some (VoteImages \<lparr>vi_challenge = challenge_two, vi_voting = None,
                                   vi_images = Some pool_abc\<rparr>)
            else Some (VoteImages (votes_abc challenge_three 60)))
      else Some Ack)"

definition serverBroken :: "nat \<Rightarrow> string \<Rightarrow> formdata \<Rightarrow> response option" where
  "serverBroken n u d =
     (if u = active_challenges_url
      then Some (Challenges [challenge_broken, challenge_one])
      else if u = vote_images_url then Some (VoteImages (votes_abc challenge_one 60))
      else Some Ack)"

definition serverMemberless :: "nat \<Rightarrow> string \<Rightarrow> formdata \<Rightarrow> response option" where
  "serverMemberless n u d =
     (if u = active_challenges_url
      then Some (Challenges [challenge_memberless, challenge_one])
      else if u = vote_images_url then Some (VoteImages (votes_abc challenge_one 60))
      else Some Ack)"

text \<open>Environments at second 1000, with the draws 1, 2, 3, ...\<close>

definition env_ack :: env where
  "env_ack = \<lparr>token = Some ''tok'', date_now = 1000999, axios = ackServer, random = shiftedRobin\<rparr>"

definition env3 :: env where
  "env3 = \<lparr>token = Some ''tok'', date_now = 1000999, axios = server3, random = shiftedRobin\<rparr>"

definition env_broken :: env where
  "env_broken = \<lparr>token = Some ''tok'', date_now = 1000999, axios = serverBroken, random = shiftedRobin\<rparr>"

definition env_memberless :: env where
  "env_memberless =
     \<lparr>token = Some ''tok'', date_now = 1000999, axios = serverMemberless, random = shiftedRobin\<rparr>"

text \<open>
  A challenge whose ranking has no entries, and the answers of \<^verbatim>\<open>get_vote_images\<close> with
  the single image of \<open>pool_single\<close> and with the two images of \<open>pool_twins\<close>.
\<close>

definition challenge_unlisted :: challenge where
  "challenge_unlisted =
     \<lparr>challenge_id = ''unlisted'', title = ''unlisted'', url = ''unlisted'', start_time = 10,
      challenge_member =
        Some \<lparr>member_boost = Some \<lparr>state = ''AVAILABLE'', timeout = Some 1300\<rparr>,
              member_ranking =
                Some \<lparr>ranking_exposure = Some \<lparr>exposure_factor = 100\<rparr>, entries = None\<rparr>\<rparr>\<rparr>"

definition votes_twins :: vote_images where
  "votes_twins =
     \<lparr>vi_challenge = challenge_one,
      vi_voting = Some \<lparr>voting_exposure = Some \<lparr>exposure_factor = 0\<rparr>\<rparr>,
      vi_images = Some pool_twins\<rparr>"

definition votes_single :: vote_images where
  "votes_single =
     \<lparr>vi_challenge = challenge_one,
      vi_voting = Some \<lparr>voting_exposure = Some \<lparr>exposure_factor = 60\<rparr>\<rparr>,
      vi_images = Some pool_single\<rparr>"

text \<open>
  The worlds that \<open>env3\<close> reaches from \<open>startWorld\<close> after its first, second and third
  challenge.
\<close>

definition world_after_one :: world where
  "world_after_one =
     \<lparr>out =
        [Log (BoostAvailable ''one''), Log (ExecutingBoost 5),
         Post boost_photo_url [(''c_id'', ''one''), (''image_id'', ''e2'')],
         Log (BoostApplied ''e2''), Log (FetchingVoteImages ''one''),
         Post vote_images_url [(''limit'', ''100''), (''url'', ''one'')],
         Log (FetchedImages 3 ''one''),
         Post submit_vote_url
           [(''c_id'', ''one''), (''image_ids[]'', ''b''), (''image_ids[]'', ''c''),
            (''layout'', ''scroll''), (''viewed_image_ids[]'', ''a''),
            (''viewed_image_ids[]'', ''b''), (''viewed_image_ids[]'', ''c'')],
         Log (VotesSubmitted ''one''), Sleep 2003],
      reqs = 3, rpos = 3\<rparr>"

definition world_after_two :: world where
  "world_after_two =
     world_after_one\<lparr>out := out world_after_one @
        [Log (BoostAvailable ''two''), Log (ExecutingBoost 5),
         Post boost_photo_url [(''c_id'', ''two''), (''image_id'', ''e2'')],
         Log (BoostApplied ''e2''), Log (FetchingVoteImages ''two''),
         Post vote_images_url [(''limit'', ''100''), (''url'', ''two'')],
         Log (FetchedImages 3 ''two''),
         Error (ErrorVotingOnChallenge ''two''),
         Error (ErrorMessage ''Cannot read properties of undefined (reading 'exposure')'')],
      reqs := 5\<rparr>"

definition world_after_three :: world where
  "world_after_three =
     world_after_two\<lparr>out := out world_after_two @
        [Log (BoostAvailable ''three''), Log (ExecutingBoost 5),
         Post boost_photo_url [(''c_id'', ''three''), (''image_id'', ''e2'')],
         Log (BoostApplied ''e2''), Log (FetchingVoteImages ''three''),
         Post vote_images_url [(''limit'', ''100''), (''url'', ''three'')],
         Log (FetchedImages 3 ''three''),
         Post submit_vote_url
           [(''c_id'', ''three''), (''image_ids[]'', ''b''), (''image_ids[]'', ''c''),
            (''layout'', ''scroll''), (''viewed_image_ids[]'', ''a''),
            (''viewed_image_ids[]'', ''b''), (''viewed_image_ids[]'', ''c'')],
         Log (VotesSubmitted ''three''), Sleep 2006],
      reqs := 8, rpos := 6\<rparr>"

section \<open>The selection loop: invariants\<close>

text \<open>
  The rule for the loop: an invariant that holds at the start and is kept by every
  iteration that does not leave through \<^verbatim>\<open>break\<close> gives the postcondition of every run
  that ends.
\<close>

lemma selectLoop_rule:
  assumes run: "selectLoop imgs ttl rnd sw = Some sw'"
    and init: "I sw"
    and step: "\<And>s b s'. I s \<Longrightarrow> exposureFactor (fst s) < 100 \<Longrightarrow> loopBody imgs ttl rnd s = (b, s')
                 \<Longrightarrow> (if b then Q s' else I s')"
    and leave: "\<And>s. I s \<Longrightarrow> \<not> exposureFactor (fst s) < 100 \<Longrightarrow> Q s"
  shows "Q sw'"
proof -
  let ?P = "\<lambda>imgs0 ttl0 rnd0 s y. imgs0 = imgs \<and> ttl0 = ttl \<and> rnd0 = rnd \<and> I s \<longrightarrow> Q y"
  have "?P imgs ttl rnd sw sw'"
  proof (rule selectLoop.raw_induct [where P = ?P, OF _ run])
    fix loop imgs1 ttl1 rnd1 s1 y1
    assume IH: "\<And>imgs0 ttl0 rnd0 s y. loop imgs0 ttl0 rnd0 s = Some y \<Longrightarrow> ?P imgs0 ttl0 rnd0 s y"
      and unfolded: "(if exposureFactor (fst s1) < 100
             then case loopBody imgs1 ttl1 rnd1 s1 of
                    (break, sw') \<Rightarrow> if break then Some sw' else loop imgs1 ttl1 rnd1 sw'
             else Some s1) = Some y1"
    show "?P imgs1 ttl1 rnd1 s1 y1"
    proof (intro impI, elim conjE)
      assume eqs: "imgs1 = imgs" "ttl1 = ttl" "rnd1 = rnd" and inv: "I s1"
      show "Q y1"
      proof (cases "exposureFactor (fst s1) < 100")
        case False
        with unfolded have "y1 = s1" by simp
        with leave [OF inv False] show ?thesis by simp
      next
        case True
        obtain b s' where body: "loopBody imgs ttl rnd s1 = (b, s')"
          by (cases "loopBody imgs ttl rnd s1") auto
        from step [OF inv True body] have st: "if b then Q s' else I s'" .
        show ?thesis
        proof (cases b)
          case True
          with unfolded \<open>exposureFactor (fst s1) < 100\<close> body eqs have "y1 = s'" by simp
          with st True show ?thesis by simp
        next
          case False
          with unfolded \<open>exposureFactor (fst s1) < 100\<close> body eqs
          have "loop imgs ttl rnd s' = Some y1" by simp
          from IH [OF this] st False show ?thesis by simp
        qed
      qed
    qed
  qed
  with init show ?thesis by simp
qed

lemma loopBody_elim:
  assumes "loopBody imgs ttl rnd (sel, w) = (b, sel', w')"
  obtains (dup) "image_id (imgs ! (rnd (rpos w) mod length imgs)) \<in> set (uniqueImageIds sel)"
      "\<not> b" "sel' = sel" "w' = w\<lparr>rpos := rpos w + 1\<rparr>"
  | (fresh) "image_id (imgs ! (rnd (rpos w) mod length imgs)) \<notin> set (uniqueImageIds sel)"
      "sel' = sel\<lparr>uniqueImageIds := uniqueImageIds sel @ [image_id (imgs ! (rnd (rpos w) mod length imgs))],
                  votedImages := votedImages sel @ [(''image_ids[]'', image_id (imgs ! (rnd (rpos w) mod length imgs)))],
                  exposureFactor := exposureFactor sel + ratio (imgs ! (rnd (rpos w) mod length imgs))\<rparr>"
      "b = (Suc (length (uniqueImageIds sel)) = length imgs)"
      "w' = (if b then w\<lparr>rpos := rpos w + 1, out := out w @ [Warn (NotEnoughImages ttl)]\<rparr>
             else w\<lparr>rpos := rpos w + 1\<rparr>)"
  using assms
  by (auto simp: loopBody_def set_has_def set_add_def Let_def split: if_splits)

lemma params_tagged: "params k (map (Pair k) xs) = xs"
  by (induction xs) (simp_all add: params_def)

lemma selectLoop_distinct:
  assumes run: "selectLoop imgs ttl rnd (sel, w) = Some (sel', w')"
    and d: "distinct (uniqueImageIds sel)"
    and v: "votedImages sel = map (Pair ''image_ids[]'') (uniqueImageIds sel)"
  shows "distinct (uniqueImageIds sel') \<and>
         votedImages sel' = map (Pair ''image_ids[]'') (uniqueImageIds sel')"
proof -
  let ?I = "\<lambda>s. distinct (uniqueImageIds (fst s)) \<and>
                 votedImages (fst s) = map (Pair ''image_ids[]'') (uniqueImageIds (fst s))"
  have "?I (sel', w')"
  proof (rule selectLoop_rule [where I = ?I and Q = ?I, OF run])
    show "?I (sel, w)" using d v by simp
  next
    fix s b s'
    assume inv: "?I s" and body: "loopBody imgs ttl rnd s = (b, s')"
    obtain sl wl where s: "s = (sl, wl)" by (cases s)
    obtain sl' wl' where s': "s' = (sl', wl')" by (cases s')
    from body s s' have "loopBody imgs ttl rnd (sl, wl) = (b, sl', wl')" by simp
    then have "?I s'"
      using inv s s' by (cases rule: loopBody_elim) auto
    then show "if b then ?I s' else ?I s'" by simp
  qed
  then show ?thesis by simp
qed




lemma submissions_append: "submissions (xs @ ys) = submissions xs @ submissions ys"
  by (simp add: submissions_def)

lemma selectLoop_events:
  assumes run: "selectLoop imgs ttl rnd (sel, w) = Some (sel', w')"
  shows "\<exists>evs. out w' = out w @ evs \<and> submissions evs = [] \<and> reqs w' = reqs w"
proof -
  let ?I = "\<lambda>s. \<exists>evs. out (snd s) = out w @ evs \<and> submissions evs = [] \<and> reqs (snd s) = reqs w"
  have "?I (sel', w')"
  proof (rule selectLoop_rule [where I = ?I and Q = ?I, OF run])
    show "?I (sel, w)" by (simp add: submissions_def)
  next
    fix s b s'
    assume inv: "?I s" and body: "loopBody imgs ttl rnd s = (b, s')"
    obtain sl wl where s: "s = (sl, wl)" by (cases s)
    obtain sl' wl' where s': "s' = (sl', wl')" by (cases s')
    from inv s obtain evs where evs: "out wl = out w @ evs" "submissions evs = []" "reqs wl = reqs w"
      by auto
    from body s s' have "loopBody imgs ttl rnd (sl, wl) = (b, sl', wl')" by simp
    then have "?I s'"
    proof (cases rule: loopBody_elim)
      case dup
      with evs s' show ?thesis by simp
    next
      case fresh
      show ?thesis
      proof (cases b)
        case True
        with fresh(4) evs have "out wl' = out w @ (evs @ [Warn (NotEnoughImages ttl)])"
          and "submissions (evs @ [Warn (NotEnoughImages ttl)]) = []" and "reqs wl' = reqs w"
          by (simp_all add: submissions_def)
        then show ?thesis using s' by (metis snd_conv)
      next
        case False
        with fresh(4) evs s' show ?thesis by simp
      qed
    qed
    then show "if b then ?I s' else ?I s'" by simp
  qed
  then show ?thesis by simp
qed

section \<open>The selection loop: termination\<close>

text \<open>
  Where the identifiers of the pool are pairwise different, an identifier outside the set
  exists as long as the set is smaller than the pool; a fair sequence of draws reaches
  it. The proof is by induction on the number of identifiers still outside the set and,
  inside, on the number of draws until the next fresh one.
\<close>

lemma fresh_exists:
  assumes "distinct (map image_id imgs)" and "length us < length imgs"
  shows "\<exists>i<length imgs. image_id (imgs ! i) \<notin> set us"
proof (rule ccontr)
  assume "\<not> ?thesis"
  then have "\<forall>i<length imgs. image_id (imgs ! i) \<in> set us" by simp
  then have "set (map image_id imgs) \<subseteq> set us"
    by (auto simp: in_set_conv_nth)
  then have "card (set (map image_id imgs)) \<le> card (set us)"
    by (simp add: card_mono)
  moreover have "card (set (map image_id imgs)) = length imgs"
    using assms(1) distinct_card by fastforce
  moreover have "card (set us) \<le> length us" by (rule card_length)
  ultimately show False using assms(2) by simp
qed

lemma selectLoop_terminates:
  assumes dist: "distinct (map image_id imgs)"
    and fair: "fairDraws rnd (length imgs)"
  shows "length (uniqueImageIds sel) < length imgs \<Longrightarrow> \<exists>r. selectLoop imgs ttl rnd (sel, w) = Some r"
proof (induction "length imgs - length (uniqueImageIds sel)" arbitrary: sel w rule: less_induct)
  case less
  let ?n = "length imgs"
  have inner: "image_id (imgs ! (rnd (rpos v + d) mod ?n)) \<notin> set (uniqueImageIds sel)
        \<Longrightarrow> \<exists>r. selectLoop imgs ttl rnd (sel, v) = Some r" for d v
  proof (induction d arbitrary: v)
    case 0
    show ?case
    proof (cases "exposureFactor sel < 100")
      case False
      then show ?thesis by (subst selectLoop.simps) simp
    next
      case True
      obtain b sel' v' where body: "loopBody imgs ttl rnd (sel, v) = (b, sel', v')"
        by (cases "loopBody imgs ttl rnd (sel, v)") auto
      then show ?thesis
      proof (cases rule: loopBody_elim)
        case dup
        with 0 show ?thesis by simp
      next
        case fresh
        show ?thesis
        proof (cases b)
          case True
          with body \<open>exposureFactor sel < 100\<close> show ?thesis
            by (subst selectLoop.simps) simp
        next
          case False
          with fresh(2,3) less.prems have "length (uniqueImageIds sel') < ?n"
            and "?n - length (uniqueImageIds sel') < ?n - length (uniqueImageIds sel)"
            by auto
          from less.hyps [OF this(2) this(1)] obtain r
            where "selectLoop imgs ttl rnd (sel', v') = Some r" by blast
          with body False \<open>exposureFactor sel < 100\<close> show ?thesis
            by (subst selectLoop.simps) simp
        qed
      qed
    qed
  next
    case (Suc d)
    show ?case
    proof (cases "exposureFactor sel < 100")
      case False
      then show ?thesis by (subst selectLoop.simps) simp
    next
      case True
      obtain b sel' v' where body: "loopBody imgs ttl rnd (sel, v) = (b, sel', v')"
        by (cases "loopBody imgs ttl rnd (sel, v)") auto
      then show ?thesis
      proof (cases rule: loopBody_elim)
        case dup
        from Suc.prems dup(4) have
          "image_id (imgs ! (rnd (rpos v' + d) mod ?n)) \<notin> set (uniqueImageIds sel)" by simp
        from Suc.IH [OF this] obtain r where "selectLoop imgs ttl rnd (sel, v') = Some r" by blast
        with body dup \<open>exposureFactor sel < 100\<close> show ?thesis
          by (subst selectLoop.simps) simp
      next
        case fresh
        show ?thesis
        proof (cases b)
          case True
          with body \<open>exposureFactor sel < 100\<close> show ?thesis
            by (subst selectLoop.simps) simp
        next
          case False
          with fresh(2,3) less.prems have "length (uniqueImageIds sel') < ?n"
            and "?n - length (uniqueImageIds sel') < ?n - length (uniqueImageIds sel)"
            by auto
          from less.hyps [OF this(2) this(1)] obtain r
            where "selectLoop imgs ttl rnd (sel', v') = Some r" by blast
          with body False \<open>exposureFactor sel < 100\<close> show ?thesis
            by (subst selectLoop.simps) simp
        qed
      qed
    qed
  qed
  from fresh_exists [OF dist less.prems] obtain i
    where i: "i < ?n" "image_id (imgs ! i) \<notin> set (uniqueImageIds sel)" by blast
  from fair i(1) obtain j where j: "j \<ge> rpos w" "rnd j mod ?n = i"
    unfolding fairDraws_def by blast
  then have "image_id (imgs ! (rnd (rpos w + (j - rpos w)) mod ?n)) \<notin> set (uniqueImageIds sel)"
    using i(2) by simp
  from inner [OF this] show ?case .
qed


lemma selectLoop_diverges:
  assumes init: "I sw"
    and step: "\<And>s b s'. I s \<Longrightarrow> loopBody imgs ttl rnd s = (b, s') \<Longrightarrow> \<not> b \<and> I s'"
    and low: "\<And>s. I s \<Longrightarrow> exposureFactor (fst s) < 100"
  shows "selectLoop imgs ttl rnd sw = None"
proof (cases "selectLoop imgs ttl rnd sw")
  case None
  then show ?thesis .
next
  case (Some y)
  have "False"
  proof (rule selectLoop_rule [where I = I and Q = "\<lambda>_. False", OF Some init])
    fix s b s'
    assume "I s" and "loopBody imgs ttl rnd s = (b, s')"
    from step [OF this] show "if b then False else I s'" by simp
  next
    fix s
    assume "I s" and "\<not> exposureFactor (fst s) < 100"
    with low show False by blast
  qed
  then show ?thesis ..
qed

lemma twins_diverge: "selectLoop pool_twins ttl rnd (initialSelection 0, w) = None"
proof -
  let ?I = "\<lambda>s. (uniqueImageIds (fst s), exposureFactor (fst s)) \<in> {([], 0), ([''a''], 10)}"
  show ?thesis
  proof (rule selectLoop_diverges [where I = ?I])
    show "?I (initialSelection 0, w)" by (simp add: initialSelection_def)
  next
    fix s b s'
    assume inv: "?I s" and body: "loopBody pool_twins ttl rnd s = (b, s')"
    obtain sl wl where s: "s = (sl, wl)" by (cases s)
    obtain sl' wl' where s': "s' = (sl', wl')" by (cases s')
    let ?k = "rnd (rpos wl) mod length pool_twins"
    have len: "length pool_twins = 2" by (simp add: pool_twins_def)
    have "?k < 2" unfolding len by simp
    then have k: "?k = 0 \<or> ?k = Suc 0" by arith
    then have img: "pool_twins ! ?k = \<lparr>image_id = ''a'', ratio = 10\<rparr>"
      by (auto simp: pool_twins_def)
    from body s s' have "loopBody pool_twins ttl rnd (sl, wl) = (b, sl', wl')" by simp
    then show "\<not> b \<and> ?I s'"
    proof (cases rule: loopBody_elim)
      case dup
      with inv s s' show ?thesis by simp
    next
      case fresh
      from fresh(1) img inv s have st: "uniqueImageIds sl = []" "exposureFactor sl = 0" by auto
      from fresh(3) st have "\<not> b" by (simp add: pool_twins_def)
      moreover from fresh(2) st img s' have "?I s'" by simp
      ultimately show ?thesis by simp
    qed
  next
    fix s assume "?I s" then show "exposureFactor (fst s) < 100" by auto
  qed
qed

section \<open>Steps only add events\<close>

lemma growingD: "growing m \<Longrightarrow> m w = Some (r, w') \<Longrightarrow> \<exists>evs. out w' = out w @ evs"
  unfolding growing_def by blast

lemma growing_ret: "growing (ret x)" by (simp add: growing_def ret_def)

lemma growing_throw: "growing (throw e)" by (simp add: growing_def throw_def)

lemma growing_emit: "growing (emit e)" by (auto simp: growing_def emit_def)

lemma growing_andThen:
  assumes "growing m" and "\<And>x. growing (f x)"
  shows "growing (andThen m f)"
  unfolding growing_def
proof (intro allI impI)
  fix w r w' assume run: "andThen m f w = Some (r, w')"
  then obtain r1 w1 where m: "m w = Some (r1, w1)"
    by (auto simp: andThen_def split: option.splits)
  from growingD [OF assms(1) m] obtain e1 where e1: "out w1 = out w @ e1" by blast
  show "\<exists>evs. out w' = out w @ evs"
  proof (cases r1)
    case (Return x)
    with run m have "f x w1 = Some (r, w')" by (simp add: andThen_def)
    from growingD [OF assms(2) this] obtain e2 where "out w' = out w1 @ e2" by blast
    with e1 show ?thesis by simp
  next
    case (Throw e)
    with run m e1 show ?thesis by (auto simp: andThen_def)
  next
    case Exit
    with run m e1 show ?thesis by (auto simp: andThen_def)
  qed
qed

lemma growing_tryCatch:
  assumes "growing m" and "\<And>e. growing (h e)"
  shows "growing (tryCatch m h)"
  unfolding growing_def
proof (intro allI impI)
  fix w r w' assume run: "tryCatch m h w = Some (r, w')"
  then obtain r1 w1 where m: "m w = Some (r1, w1)"
    by (auto simp: tryCatch_def split: option.splits)
  from growingD [OF assms(1) m] obtain e1 where e1: "out w1 = out w @ e1" by blast
  show "\<exists>evs. out w' = out w @ evs"
  proof (cases r1)
    case (Throw e)
    with run m have "h e w1 = Some (r, w')" by (simp add: tryCatch_def)
    from growingD [OF assms(2) this] obtain e2 where "out w' = out w1 @ e2" by blast
    with e1 show ?thesis by simp
  next
    case (Return x)
    with run m e1 show ?thesis by (auto simp: tryCatch_def)
  next
    case Exit
    with run m e1 show ?thesis by (auto simp: tryCatch_def)
  qed
qed

lemma growing_makePostRequest: "growing (makePostRequest env u d)"
  by (auto simp: growing_def makePostRequest_def Let_def split: if_splits option.splits)

lemma growing_getRandomDelay: "growing (getRandomDelay env a b)"
  by (auto simp: growing_def getRandomDelay_def)

lemma growing_sleep: "growing (sleep ms)"
  by (simp add: sleep_def growing_emit)

lemmas growing_intros = growing_ret growing_throw growing_emit growing_andThen growing_tryCatch
  growing_makePostRequest growing_getRandomDelay growing_sleep

lemma growing_getVoteImages: "growing (getVoteImages env c)"
  unfolding getVoteImages_def Let_def
  by (intro growing_intros) (auto split: option.split response.split intro!: growing_intros)

lemma growing_applyBoost: "growing (applyBoost env c)"
  unfolding applyBoost_def Let_def
  by (auto split: option.split intro!: growing_intros)

lemma growing_runSelectLoop: "growing (runSelectLoop imgs ttl rnd e)"
  unfolding growing_def runSelectLoop_def
  by (auto split: option.splits dest: selectLoop_events)

lemma growing_submitVotes: "growing (submitVotes env v)"
  unfolding submitVotes_def Let_def
  by (auto split: option.split intro!: growing_intros growing_runSelectLoop)

lemma growing_voteBody: "growing (voteBody env c)"
  unfolding voteBody_def
  by (auto split: option.split intro!: growing_intros growing_getVoteImages growing_submitVotes)

lemma startsWith_emit:
  assumes "\<And>x. growing (k x)"
  shows "startsWith e (andThen (emit e) k)"
  unfolding startsWith_def
proof (intro allI impI)
  fix w r w' assume "andThen (emit e) k w = Some (r, w')"
  then have "k () (w\<lparr>out := out w @ [e]\<rparr>) = Some (r, w')"
    by (simp add: andThen_def emit_def)
  from growingD [OF assms this] show "\<exists>evs. out w' = out w @ e # evs" by simp
qed

lemma startsWith_andThen:
  assumes "startsWith e m" and "\<And>x. growing (f x)"
  shows "startsWith e (andThen m f)"
  unfolding startsWith_def
proof (intro allI impI)
  fix w r w' assume run: "andThen m f w = Some (r, w')"
  then obtain r1 w1 where m: "m w = Some (r1, w1)"
    by (auto simp: andThen_def split: option.splits)
  with assms(1) obtain e1 where e1: "out w1 = out w @ e # e1"
    unfolding startsWith_def by blast
  show "\<exists>evs. out w' = out w @ e # evs"
  proof (cases r1)
    case (Return x)
    with run m have "f x w1 = Some (r, w')" by (simp add: andThen_def)
    from growingD [OF assms(2) this] e1 show ?thesis by auto
  next
    case (Throw x)
    with run m e1 show ?thesis by (auto simp: andThen_def)
  next
    case Exit
    with run m e1 show ?thesis by (auto simp: andThen_def)
  qed
qed

lemma startsWith_tryCatch:
  assumes "startsWith e m" and "\<And>x. growing (h x)"
  shows "startsWith e (tryCatch m h)"
  unfolding startsWith_def
proof (intro allI impI)
  fix w r w' assume run: "tryCatch m h w = Some (r, w')"
  then obtain r1 w1 where m: "m w = Some (r1, w1)"
    by (auto simp: tryCatch_def split: option.splits)
  with assms(1) obtain e1 where e1: "out w1 = out w @ e # e1"
    unfolding startsWith_def by blast
  show "\<exists>evs. out w' = out w @ e # evs"
  proof (cases r1)
    case (Throw x)
    with run m have "h x w1 = Some (r, w')" by (simp add: tryCatch_def)
    from growingD [OF assms(2) this] e1 show ?thesis by auto
  next
    case (Return x)
    with run m e1 show ?thesis by (auto simp: tryCatch_def)
  next
    case Exit
    with run m e1 show ?thesis by (auto simp: tryCatch_def)
  qed
qed

lemma startsWith_getVoteImages: "startsWith (Log (FetchingVoteImages (title c))) (getVoteImages env c)"
  unfolding getVoteImages_def Let_def
  by (rule startsWith_emit) (auto split: option.split response.split intro!: growing_intros)

lemma startsWith_voteBody: "startsWith (Log (FetchingVoteImages (title c))) (voteBody env c)"
  unfolding voteBody_def
  by (rule startsWith_andThen [OF startsWith_getVoteImages])
    (auto split: option.split intro!: growing_intros growing_submitVotes)

section \<open>The request of submitVotes\<close>

lemma params_viewed:
  "params ''viewed_image_ids[]''
     ([(''c_id'', cid)] @ map (Pair ''image_ids[]'') us @ [(''layout'', ''scroll'')]
        @ map (\<lambda>img. (''viewed_image_ids[]'', image_id img)) imgs) = map image_id imgs"
proof -
  have a: "filter (\<lambda>p. fst p = ''viewed_image_ids[]'') (map (Pair ''image_ids[]'') us) = []"
    by (induction us) simp_all
  have b: "map snd (filter (\<lambda>p. fst p = ''viewed_image_ids[]'')
             (map (\<lambda>img. (''viewed_image_ids[]'', image_id img)) imgs)) = map image_id imgs"
    by (induction imgs) simp_all
  show ?thesis by (simp add: params_def a b)
qed

lemma submitVotes_run:
  assumes imgs: "vi_images v = Some imgs" "imgs \<noteq> []"
    and vt: "vi_voting v = Some vt" "voting_exposure vt = Some ex"
    and run: "submitVotes env v w = Some (res, w')"
  obtains sel w1 evs where
    "selectLoop imgs (title (vi_challenge v)) (random env) (initialSelection (exposure_factor ex), w)
       = Some (sel, w1)"
    "andThen (makePostRequest env submit_vote_url
        ([(''c_id'', challenge_id (vi_challenge v))] @ votedImages sel @ [(''layout'', ''scroll'')]
           @ map (\<lambda>img. (''viewed_image_ids[]'', image_id img)) imgs))
       (\<lambda>response. case response of
            None \<Rightarrow> andThen (emit (Error (FailedToSubmitVotes (title (vi_challenge v))))) (\<lambda>_. ret None)
          | Some r \<Rightarrow> andThen (emit (Log (VotesSubmitted (title (vi_challenge v))))) (\<lambda>_. ret (Some r)))
       w1 = Some (res, w')"
proof -
  from run imgs vt obtain sel w1 where
    loop: "selectLoop imgs (title (vi_challenge v)) (random env)
             (initialSelection (exposure_factor ex), w) = Some (sel, w1)"
    by (auto simp: submitVotes_def Let_def andThen_def runSelectLoop_def split: option.splits)
  with run imgs vt that show ?thesis
    by (simp add: submitVotes_def Let_def andThen_def runSelectLoop_def)
qed

lemma submit_request_events:
  assumes "andThen (makePostRequest env submit_vote_url d)
       (\<lambda>response. case response of
            None \<Rightarrow> andThen (emit (Error (FailedToSubmitVotes t))) (\<lambda>_. ret None)
          | Some r \<Rightarrow> andThen (emit (Log (VotesSubmitted t))) (\<lambda>_. ret (Some r)))
       w1 = Some (res, w')"
  shows "\<exists>evs. out w' = out w1 @ evs \<and> submissions evs = (if tokenSet env then [d] else [])"
  using assms
  by (auto simp: andThen_def makePostRequest_def emit_def ret_def tokenSet_def Let_def
        submissions_def split: if_splits option.splits)

lemma submitVotes_submissions:
  assumes imgs: "vi_images v = Some imgs" "imgs \<noteq> []"
    and run: "submitVotes env v w = Some (res, w')"
  shows "\<exists>sel::selection. votedImages sel = map (Pair ''image_ids[]'') (uniqueImageIds sel) \<and>
           distinct (uniqueImageIds sel) \<and>
           submissions (newEvents w w') =
             (if tokenSet env \<and> (\<exists>vt ex. vi_voting v = Some vt \<and> voting_exposure vt = Some ex)
              then [[(''c_id'', challenge_id (vi_challenge v))] @ votedImages sel @ [(''layout'', ''scroll'')]
                     @ map (\<lambda>img. (''viewed_image_ids[]'', image_id img)) imgs]
              else [])"
proof (cases "\<exists>vt ex. vi_voting v = Some vt \<and> voting_exposure vt = Some ex")
  case False
  with run imgs have "w' = w"
    by (auto simp: submitVotes_def Let_def throw_def split: option.splits)
  then have "submissions (newEvents w w') = []" by (simp add: newEvents_def submissions_def)
  with False have "votedImages (initialSelection 0) =
        map (Pair ''image_ids[]'') (uniqueImageIds (initialSelection 0)) \<and>
      distinct (uniqueImageIds (initialSelection 0)) \<and>
      submissions (newEvents w w') =
             (if tokenSet env \<and> (\<exists>vt ex. vi_voting v = Some vt \<and> voting_exposure vt = Some ex)
              then [[(''c_id'', challenge_id (vi_challenge v))] @ votedImages (initialSelection 0)
                     @ [(''layout'', ''scroll'')]
                     @ map (\<lambda>img. (''viewed_image_ids[]'', image_id img)) imgs]
              else [])"
    by (simp add: initialSelection_def)
  then show ?thesis by blast
next
  case True
  then obtain vt ex where vt: "vi_voting v = Some vt" "voting_exposure vt = Some ex" by blast
  from imgs vt run obtain sel w1 where
    loop: "selectLoop imgs (title (vi_challenge v)) (random env)
             (initialSelection (exposure_factor ex), w) = Some (sel, w1)"
    and post: "andThen (makePostRequest env submit_vote_url
        ([(''c_id'', challenge_id (vi_challenge v))] @ votedImages sel @ [(''layout'', ''scroll'')]
           @ map (\<lambda>img. (''viewed_image_ids[]'', image_id img)) imgs))
       (\<lambda>response. case response of
            None \<Rightarrow> andThen (emit (Error (FailedToSubmitVotes (title (vi_challenge v))))) (\<lambda>_. ret None)
          | Some r \<Rightarrow> andThen (emit (Log (VotesSubmitted (title (vi_challenge v))))) (\<lambda>_. ret (Some r)))
       w1 = Some (res, w')"
    by (rule submitVotes_run)
  from selectLoop_events [OF loop] obtain e1
    where e1: "out w1 = out w @ e1" "submissions e1 = []" by blast
  from submit_request_events [OF post] obtain e2
    where e2: "out w' = out w1 @ e2"
      "submissions e2 = (if tokenSet env then
         [[(''c_id'', challenge_id (vi_challenge v))] @ votedImages sel @ [(''layout'', ''scroll'')]
           @ map (\<lambda>img. (''viewed_image_ids[]'', image_id img)) imgs] else [])" by blast
  from e1 e2 have "newEvents w w' = e1 @ e2" by (simp add: newEvents_def)
  with e1(2) e2(2) have sub: "submissions (newEvents w w') = (if tokenSet env then
         [[(''c_id'', challenge_id (vi_challenge v))] @ votedImages sel @ [(''layout'', ''scroll'')]
           @ map (\<lambda>img. (''viewed_image_ids[]'', image_id img)) imgs] else [])"
    by (simp add: submissions_append)
  have "votedImages sel = map (Pair ''image_ids[]'') (uniqueImageIds sel) \<and>
        distinct (uniqueImageIds sel)"
    using selectLoop_distinct [OF loop] by (simp add: initialSelection_def)
  with sub True show ?thesis by auto
qed

lemma params_voted:
  "params ''image_ids[]''
     ([(''c_id'', cid)] @ map (Pair ''image_ids[]'') us @ [(''layout'', ''scroll'')]
        @ map (\<lambda>img. (''viewed_image_ids[]'', image_id img)) imgs) = us"
proof -
  have a: "filter (\<lambda>p. fst p = ''image_ids[]'') (map (Pair ''image_ids[]'') us) =
      map (Pair ''image_ids[]'') us"
    by (induction us) simp_all
  have b: "filter (\<lambda>p. fst p = ''image_ids[]'')
             (map (\<lambda>img. (''viewed_image_ids[]'', image_id img)) imgs) = []"
    by (induction imgs) simp_all
  show ?thesis by (simp add: params_def a b comp_def)
qed

lemma submitVotes_without_images:
  assumes "vi_images v = None \<or> vi_images v = Some []"
    and "submitVotes env v w = Some (res, w')"
  shows "submissions (newEvents w w') = []"
  using assms
  by (auto simp: submitVotes_def Let_def andThen_def emit_def ret_def newEvents_def submissions_def)

lemma submitVotes_distinct:
  assumes run: "submitVotes env v w = Some (res, w')"
  shows "list_all (\<lambda>d. distinct (params ''image_ids[]'' d)) (submissions (newEvents w w'))"
proof (cases "vi_images v = None \<or> vi_images v = Some []")
  case True
  from submitVotes_without_images [OF True run] show ?thesis by simp
next
  case False
  then obtain imgs where imgs: "vi_images v = Some imgs" "imgs \<noteq> []" by auto
  from submitVotes_submissions [OF imgs run] obtain sel :: selection where
    v: "votedImages sel = map (Pair ''image_ids[]'') (uniqueImageIds sel)"
    and d: "distinct (uniqueImageIds sel)"
    and s: "submissions (newEvents w w') =
             (if tokenSet env \<and> (\<exists>vt ex. vi_voting v = Some vt \<and> voting_exposure vt = Some ex)
              then [[(''c_id'', challenge_id (vi_challenge v))] @ votedImages sel @ [(''layout'', ''scroll'')]
                     @ map (\<lambda>img. (''viewed_image_ids[]'', image_id img)) imgs]
              else [])" by blast
  have "params ''image_ids[]''
     ([(''c_id'', challenge_id (vi_challenge v))] @ votedImages sel @ [(''layout'', ''scroll'')]
        @ map (\<lambda>img. (''viewed_image_ids[]'', image_id img)) imgs) = uniqueImageIds sel"
    unfolding v by (rule params_voted)
  with s d show ?thesis by (simp split: if_splits)
qed

lemma runSelectLoop_at_target:
  "100 \<le> e \<Longrightarrow> runSelectLoop imgs ttl rnd e w = Some (Return (initialSelection e), w)"
  unfolding runSelectLoop_def
  by (subst selectLoop.simps) (simp add: initialSelection_def)

section \<open>The boost step\<close>

text \<open>
  Outside its window the boost step returns without a log line of line 294 and without a
  request. Inside it, the step logs lines 288 and 294 and calls \<^verbatim>\<open>applyBoost\<close> under the first
  \<^verbatim>\<open>try\<close>.
\<close>

lemma boostStep_skips:
  assumes "challenge_member c = Some m" and "member_boost m = Some b"
    and "\<not> (state b = ''AVAILABLE'' \<and>
      (\<exists>t. timeout b = Some t \<and> t \<noteq> 0 \<and> 0 < t - now \<and> t - now \<le> 600))"
  shows "\<exists>w'. boostStep env now c w = Some (Return (), w') \<and> \<not> boostAttempted (newEvents w w') \<and>
           boostRequests (newEvents w w') = [] \<and> reqs w' = reqs w"
  using assms
  by (auto simp: boostStep_def Let_def andThen_def emit_def ret_def newEvents_def boostAttempted_def
        boostRequests_def split: option.splits)

text \<open>What \<^verbatim>\<open>applyBoost\<close> adds to the events, and how the call ends.\<close>

lemma applyBoost_run:
  assumes "challenge_member c = Some m"
  shows "\<exists>r w2. applyBoost env c w1 = Some (r, w2) \<and>
     (case member_ranking m of
        None \<Rightarrow> r = Throw ''Cannot read properties of undefined (reading 'entries')'' \<and> w2 = w1
      | Some rk \<Rightarrow>
          (case entries rk of
             None \<Rightarrow> r = Throw ''Cannot read properties of undefined (reading 'length')'' \<and> w2 = w1
           | Some es \<Rightarrow>
               (case getFirstNonTurboKey es of
                  None \<Rightarrow> r = Return None \<and> out w2 = out w1 @ [Error NoNonTurboedEntries] \<and> reqs w2 = reqs w1
                | Some i \<Rightarrow>
                    if i = [] then r = Return None \<and> out w2 = out w1 @ [Error NoNonTurboedEntries] \<and> reqs w2 = reqs w1
                    else if \<not> tokenSet env then r = Exit \<and> out w2 = out w1 @ [Error TokenMustBeSet]
                    else r = Return (axios env (reqs w1) boost_photo_url [(''c_id'', challenge_id c), (''image_id'', i)]) \<and>
                         reqs w2 = reqs w1 + 1 \<and>
                         out w2 = out w1 @ Post boost_photo_url [(''c_id'', challenge_id c), (''image_id'', i)]
                           # (case axios env (reqs w1) boost_photo_url [(''c_id'', challenge_id c), (''image_id'', i)] of
                                None \<Rightarrow> [Error (PostRequestFailed boost_photo_url),
                                          Error (FailedToApplyBoost (challenge_id c))]
                              | Some a \<Rightarrow> [Log (BoostApplied i)]))))"
  using assms
  by (auto simp: applyBoost_def Let_def andThen_def emit_def ret_def throw_def makePostRequest_def
        tokenSet_def split: option.splits)

lemma boostStep_due:
  assumes "challenge_member c = Some m" and "member_boost m = Some b"
    and "state b = ''AVAILABLE''" and "timeout b = Some t"
    and "t \<noteq> 0" and "0 < t - now" and "t - now \<le> 600"
  shows "boostStep env now c w =
           tryCatch (andThen (applyBoost env c) (\<lambda>_. ret ()))
             (\<lambda>err. emit (Error (ErrorDuringBoost err)))
             (w\<lparr>out := out w @ [Log (BoostAvailable (title c)),
                                  Log (ExecutingBoost ((t - now) div 60))]\<rparr>)"
  using assms by (simp add: boostStep_def Let_def andThen_def emit_def)

lemma boostStep_attempts:
  assumes "challenge_member c = Some m" and "member_boost m = Some b"
    and "state b = ''AVAILABLE''" and "timeout b = Some t"
    and "t \<noteq> 0" and "0 < t - now" and "t - now \<le> 600"
  shows "\<exists>res w'. boostStep env now c w = Some (res, w') \<and> boostAttempted (newEvents w w') \<and>
     (tokenSet env \<longrightarrow> member_ranking m = Some rk \<longrightarrow> entries rk = Some es \<longrightarrow>
        getFirstNonTurboKey es = Some i \<longrightarrow> i \<noteq> [] \<longrightarrow>
        res = Return () \<and> reqs w' = reqs w + 1 \<and>
        newEvents w w' =
          Log (BoostAvailable (title c)) # Log (ExecutingBoost ((t - now) div 60))
          # Post boost_photo_url [(''c_id'', challenge_id c), (''image_id'', i)]
          # (case axios env (reqs w) boost_photo_url [(''c_id'', challenge_id c), (''image_id'', i)] of
               None \<Rightarrow> [Error (PostRequestFailed boost_photo_url),
                         Error (FailedToApplyBoost (challenge_id c))]
             | Some a \<Rightarrow> [Log (BoostApplied i)])) \<and>
     (member_ranking m = Some rk \<longrightarrow> entries rk = None \<longrightarrow>
        res = Return () \<and> reqs w' = reqs w \<and>
        newEvents w w' =
          [Log (BoostAvailable (title c)), Log (ExecutingBoost ((t - now) div 60)),
           Error (ErrorDuringBoost ''Cannot read properties of undefined (reading 'length')'')])"
proof -
  let ?w1 = "w\<lparr>out := out w @ [Log (BoostAvailable (title c)),
                                  Log (ExecutingBoost ((t - now) div 60))]\<rparr>"
  from applyBoost_run [OF assms(1), of env ?w1] obtain r w2 where
    run: "applyBoost env c ?w1 = Some (r, w2)"
    and eff: "(case member_ranking m of
        None \<Rightarrow> r = Throw ''Cannot read properties of undefined (reading 'entries')'' \<and> w2 = ?w1
      | Some rk \<Rightarrow>
          (case entries rk of
             None \<Rightarrow> r = Throw ''Cannot read properties of undefined (reading 'length')'' \<and> w2 = ?w1
           | Some es \<Rightarrow>
               (case getFirstNonTurboKey es of
                  None \<Rightarrow> r = Return None \<and> out w2 = out ?w1 @ [Error NoNonTurboedEntries] \<and> reqs w2 = reqs ?w1
                | Some i \<Rightarrow>
                    if i = [] then r = Return None \<and> out w2 = out ?w1 @ [Error NoNonTurboedEntries] \<and> reqs w2 = reqs ?w1
                    else if \<not> tokenSet env then r = Exit \<and> out w2 = out ?w1 @ [Error TokenMustBeSet]
                    else r = Return (axios env (reqs ?w1) boost_photo_url [(''c_id'', challenge_id c), (''image_id'', i)]) \<and>
                         reqs w2 = reqs ?w1 + 1 \<and>
                         out w2 = out ?w1 @ Post boost_photo_url [(''c_id'', challenge_id c), (''image_id'', i)]
                           # (case axios env (reqs ?w1) boost_photo_url [(''c_id'', challenge_id c), (''image_id'', i)] of
                                None \<Rightarrow> [Error (PostRequestFailed boost_photo_url),
                                          Error (FailedToApplyBoost (challenge_id c))]
                              | Some a \<Rightarrow> [Log (BoostApplied i)]))))"
    by blast
  have step: "boostStep env now c w =
      (case r of Return x \<Rightarrow> Some (Return (), w2)
       | Throw e \<Rightarrow> Some (Return (), w2\<lparr>out := out w2 @ [Error (ErrorDuringBoost e)]\<rparr>)
       | Exit \<Rightarrow> Some (Exit, w2))"
    unfolding boostStep_due [OF assms]
    using run by (cases r) (simp_all add: tryCatch_def andThen_def ret_def emit_def)
  have grows: "\<exists>evs. out w2 = out ?w1 @ evs"
    using growingD [OF growing_applyBoost run] .
  show ?thesis
  proof (cases r)
    case (Return x)
    with step grows eff show ?thesis
      by (auto simp: newEvents_def boostAttempted_def split: option.splits if_splits)
  next
    case (Throw e)
    with step grows eff show ?thesis
      by (auto simp: newEvents_def boostAttempted_def split: option.splits if_splits)
  next
    case Exit
    with step grows eff show ?thesis
      by (auto simp: newEvents_def boostAttempted_def split: option.splits if_splits)
  qed
qed

section \<open>The voting step\<close>

text \<open>
  The draws 1, 2, 3, ... are fair. With a token, a voting step that passes the test of
  line 304 begins with line 104 and the request of the pool; on a usable pool with
  pairwise different identifiers and fair draws it ends, after the request of
  \<^verbatim>\<open>submitVotes\<close> and the pause.
\<close>

lemma fair_shiftedRobin: "0 < n \<Longrightarrow> fairDraws shiftedRobin n"
  unfolding fairDraws_def shiftedRobin_def
proof (intro allI impI)
  fix k i assume "0 < n" "i < n"
  from \<open>0 < n\<close> obtain m where n: "n = Suc m" by (cases n) auto
  let ?j = "n * Suc k + i - 1"
  have pos: "0 < n * Suc k + i" using n by simp
  have "k \<le> ?j" using n by simp
  have "?j + 1 = n * Suc k + i" using pos by simp
  moreover have "(i + n * Suc k) mod n = i mod n" by (rule mod_mult_self2)
  ultimately have "(?j + 1) mod n = i" using \<open>i < n\<close> by (simp add: add.commute)
  with \<open>k \<le> ?j\<close> show "\<exists>j\<ge>k. (j + 1) mod n = i" by blast
qed

lemma getVoteImages_request:
  assumes "tokenSet env" and "getVoteImages env c w = Some (r, w')"
  shows "\<exists>evs. out w' = out w @ Log (FetchingVoteImages (title c))
           # Post vote_images_url [(''limit'', ''100''), (''url'', url c)] # evs"
  using assms
  by (auto simp: getVoteImages_def Let_def andThen_def emit_def ret_def makePostRequest_def
        tokenSet_def split: option.splits response.splits if_splits)

lemma voteBody_request:
  assumes tok: "tokenSet env" and run: "voteBody env c w = Some (r, w')"
  shows "\<exists>evs. out w' = out w @ Log (FetchingVoteImages (title c))
           # Post vote_images_url [(''limit'', ''100''), (''url'', url c)] # evs"
proof -
  from run obtain r1 w1 where g: "getVoteImages env c w = Some (r1, w1)"
    by (auto simp: voteBody_def andThen_def split: option.splits)
  from getVoteImages_request [OF tok g] obtain e1 where
    e1: "out w1 = out w @ Log (FetchingVoteImages (title c))
           # Post vote_images_url [(''limit'', ''100''), (''url'', url c)] # e1" by blast
  show ?thesis
  proof (cases r1)
    case (Return x)
    show ?thesis
    proof (cases x)
      case None
      with Return run g e1 show ?thesis by (auto simp: voteBody_def andThen_def ret_def)
    next
      case (Some v)
      let ?k = "andThen (submitVotes env v) (\<lambda>_. andThen (getRandomDelay env 2000 5000) (\<lambda>ms. sleep ms))"
      from Some Return run g have "?k w1 = Some (r, w')" by (simp add: voteBody_def andThen_def)
      moreover have "growing ?k" by (intro growing_intros growing_submitVotes)
      ultimately obtain e2 where "out w' = out w1 @ e2" using growingD by blast
      with e1 show ?thesis by simp
    qed
  next
    case (Throw e)
    with run g e1 show ?thesis by (auto simp: voteBody_def andThen_def)
  next
    case Exit
    with run g e1 show ?thesis by (auto simp: voteBody_def andThen_def)
  qed
qed

lemma voteStep_request:
  assumes "challenge_member c = Some m" and "member_ranking m = Some r"
    and "ranking_exposure r = Some ex"
    and "exposure_factor ex < 100" and "start_time c < now"
    and tok: "tokenSet env" and run: "voteStep env now c w = Some (res, w')"
  shows "\<exists>evs. out w' = out w @ Log (FetchingVoteImages (title c))
           # Post vote_images_url [(''limit'', ''100''), (''url'', url c)] # evs"
proof -
  let ?h = "\<lambda>err. andThen (emit (Error (ErrorVotingOnChallenge (title c)))) (\<lambda>_.
                                   emit (Error (ErrorMessage err)))"
  from assms have t: "tryCatch (voteBody env c) ?h w = Some (res, w')"
    by (simp add: voteStep_def)
  then obtain r1 w1 where b: "voteBody env c w = Some (r1, w1)"
    by (auto simp: tryCatch_def split: option.splits)
  from voteBody_request [OF tok b] obtain e1 where
    e1: "out w1 = out w @ Log (FetchingVoteImages (title c))
           # Post vote_images_url [(''limit'', ''100''), (''url'', url c)] # e1" by blast
  show ?thesis
  proof (cases r1)
    case (Throw e)
    with t b have "?h e w1 = Some (res, w')" by (simp add: tryCatch_def)
    moreover have "growing (?h e)" by (intro growing_intros)
    ultimately obtain e2 where "out w' = out w1 @ e2" using growingD by blast
    with e1 show ?thesis by simp
  next
    case (Return x)
    with t b e1 show ?thesis by (auto simp: tryCatch_def)
  next
    case Exit
    with t b e1 show ?thesis by (auto simp: tryCatch_def)
  qed
qed

lemma voteStep_votes:
  assumes "challenge_member c = Some m" and "member_ranking m = Some r"
    and "ranking_exposure r = Some ex"
    and "exposure_factor ex < 100" and "start_time c < now"
    and tok: "tokenSet env"
    and ans: "axios env (reqs w) vote_images_url [(''limit'', ''100''), (''url'', url c)]
               = Some (VoteImages v)"
    and imgs: "vi_images v = Some imgs" "imgs \<noteq> []"
    and vt: "vi_voting v = Some vt" "voting_exposure vt = Some e"
    and dist: "distinct (map image_id imgs)"
    and fair: "fairDraws (random env) (length imgs)"
  shows "\<exists>sel w1 w2.
     selectLoop imgs (title (vi_challenge v)) (random env)
       (initialSelection (exposure_factor e),
        w\<lparr>out := out w @ [Log (FetchingVoteImages (title c)),
                             Post vote_images_url [(''limit'', ''100''), (''url'', url c)],
                             Log (FetchedImages (length imgs) (title c))],
           reqs := reqs w + 1\<rparr>) = Some (sel, w1) \<and>
     voteStep env now c w = Some (Return (), w2) \<and>
     out w2 = out w1
        @ Post submit_vote_url
            ([(''c_id'', challenge_id (vi_challenge v))] @ votedImages sel @ [(''layout'', ''scroll'')]
               @ map (\<lambda>img. (''viewed_image_ids[]'', image_id img)) imgs)
        # (case axios env (reqs w1) submit_vote_url
                  ([(''c_id'', challenge_id (vi_challenge v))] @ votedImages sel
                     @ [(''layout'', ''scroll'')]
                     @ map (\<lambda>img. (''viewed_image_ids[]'', image_id img)) imgs) of
             None \<Rightarrow> [Error (PostRequestFailed submit_vote_url),
                       Error (FailedToSubmitVotes (title (vi_challenge v)))]
           | Some a \<Rightarrow> [Log (VotesSubmitted (title (vi_challenge v)))])
        @ [Sleep (2000 + random env (rpos w1) mod 3001)] \<and>
     reqs w2 = reqs w1 + 1 \<and> rpos w2 = rpos w1 + 1"
proof -
  let ?w0 = "w\<lparr>out := out w @ [Log (FetchingVoteImages (title c)),
                             Post vote_images_url [(''limit'', ''100''), (''url'', url c)],
                             Log (FetchedImages (length imgs) (title c))],
           reqs := reqs w + 1\<rparr>"
  have g: "getVoteImages env c w = Some (Return (Some v), ?w0)"
    using tok ans imgs
    by (simp add: getVoteImages_def Let_def andThen_def emit_def ret_def makePostRequest_def
          tokenSet_def)
  from imgs(2) have "length (uniqueImageIds (initialSelection (exposure_factor e))) < length imgs"
    by (simp add: initialSelection_def)
  from selectLoop_terminates [OF dist fair this] obtain sel w1 where
    loop: "selectLoop imgs (title (vi_challenge v)) (random env)
             (initialSelection (exposure_factor e), ?w0) = Some (sel, w1)" by fastforce
  let ?d = "[(''c_id'', challenge_id (vi_challenge v))] @ votedImages sel @ [(''layout'', ''scroll'')]
               @ map (\<lambda>img. (''viewed_image_ids[]'', image_id img)) imgs"
  let ?logs = "case axios env (reqs w1) submit_vote_url ?d of
             None \<Rightarrow> [Error (PostRequestFailed submit_vote_url),
                       Error (FailedToSubmitVotes (title (vi_challenge v)))]
           | Some a \<Rightarrow> [Log (VotesSubmitted (title (vi_challenge v)))]"
  let ?w2 = "w1\<lparr>out := out w1 @ Post submit_vote_url ?d # ?logs
                       @ [Sleep (2000 + random env (rpos w1) mod 3001)],
                reqs := reqs w1 + 1, rpos := rpos w1 + 1\<rparr>"
  have sv: "submitVotes env v ?w0 =
      Some (Return (axios env (reqs w1) submit_vote_url ?d),
            w1\<lparr>out := out w1 @ Post submit_vote_url ?d # ?logs, reqs := reqs w1 + 1\<rparr>)"
    using tok imgs vt loop
    by (cases "axios env (reqs w1) submit_vote_url ?d")
      (simp_all add: submitVotes_def Let_def andThen_def runSelectLoop_def makePostRequest_def
        tokenSet_def emit_def ret_def)
  have vb: "voteBody env c w = Some (Return (), ?w2)"
    using g sv
    by (simp add: voteBody_def andThen_def getRandomDelay_def sleep_def emit_def)
  have "voteStep env now c w = Some (Return (), ?w2)"
    using assms(1-5) vb by (simp add: voteStep_def tryCatch_def)
  with loop have "selectLoop imgs (title (vi_challenge v)) (random env)
             (initialSelection (exposure_factor e), ?w0) = Some (sel, w1) \<and>
     voteStep env now c w = Some (Return (), ?w2) \<and>
     out ?w2 = out w1 @ Post submit_vote_url ?d # ?logs
                 @ [Sleep (2000 + random env (rpos w1) mod 3001)] \<and>
     reqs ?w2 = reqs w1 + 1 \<and> rpos ?w2 = rpos w1 + 1"
    by simp
  then show ?thesis by blast
qed

section \<open>The three challenges of the second server\<close>

lemma after_one:
  "processChallenge env3 1000 challenge_one startWorld = Some (Return (), world_after_one)"
  by code_simp

lemma after_two:
  "processChallenge env3 1000 challenge_two world_after_one = Some (Return (), world_after_two)"
  by code_simp

lemma after_three:
  "processChallenge env3 1000 challenge_three world_after_two = Some (Return (), world_after_three)"
  by code_simp

section \<open>The claims\<close>



text \<open>
  C2. The loop does not end for every pool: with two images that share one identifier
  (ratio 10, starting exposure 0) the set of chosen identifiers holds one element and the
  pool two, so the test of line 167 never holds, and the exposure stays at 10. The
  selection loop runs for ever on every sequence of draws, and \<^verbatim>\<open>submitVotes\<close> never
  returns, in every environment and from every world.
\<close>

theorem selection_never_ends_on_twins:
  "pool_twins \<noteq> [] \<and> vi_images votes_twins = Some pool_twins \<and>
   selectLoop pool_twins ttl rnd (initialSelection 0, w) = None \<and>
   submitVotes env votes_twins w = None"
proof -
  have "runSelectLoop pool_twins ttl' rnd' 0 w' = None" for ttl' rnd' w'
    by (simp add: runSelectLoop_def twins_diverge)
  then have "submitVotes env votes_twins w = None"
    by (simp add: submitVotes_def votes_twins_def pool_twins_def andThen_def Let_def)
  then show ?thesis
    by (simp add: twins_diverge) (simp add: pool_twins_def votes_twins_def)
qed

text \<open>
  C3. For every pool and starting exposure, the identifiers chosen by a run of the
  selection loop, in the set and in the \<^verbatim>\<open>image_ids[]\<close> parameters of the form body, are
  pairwise different; and so are the \<^verbatim>\<open>image_ids[]\<close> of every request that
  \<^verbatim>\<open>submitVotes\<close> sends, whatever it was given (without images it sends none).
\<close>

theorem selection_has_no_duplicates:
  "(imgs \<noteq> [] \<longrightarrow> selectLoop imgs ttl rnd (initialSelection e, w) = Some (sel, w') \<longrightarrow>
      distinct (uniqueImageIds sel) \<and> distinct (params ''image_ids[]'' (votedImages sel)))
   \<and> (submitVotes env v u = Some (res, u') \<longrightarrow>
        list_all (\<lambda>d. distinct (params ''image_ids[]'' d)) (submissions (newEvents u u')))"
proof (intro conjI impI)
  assume run: "selectLoop imgs ttl rnd (initialSelection e, w) = Some (sel, w')"
  have "distinct (uniqueImageIds sel) \<and>
        votedImages sel = map (Pair ''image_ids[]'') (uniqueImageIds sel)"
    by (rule selectLoop_distinct [OF run]) (simp_all add: initialSelection_def)
  then show "distinct (uniqueImageIds sel)"
    and "distinct (params ''image_ids[]'' (votedImages sel))"
    by (simp_all add: params_tagged)
next
  assume "submitVotes env v u = Some (res, u')"
  then show "list_all (\<lambda>d. distinct (params ''image_ids[]'' d)) (submissions (newEvents u u'))"
    by (rule submitVotes_distinct)
qed

theorem selection_has_no_duplicates_witness:
  "pool_abc \<noteq> [] \<and>
   selectLoop pool_abc ''t'' shiftedRobin (initialSelection 60, startWorld) =
     Some (\<lparr>uniqueImageIds = [''b'', ''c''],
             votedImages = [(''image_ids[]'', ''b''), (''image_ids[]'', ''c'')],
             exposureFactor = 140\<rparr>,
           \<lparr>out = [], reqs = 0, rpos = 2\<rparr>) \<and>
   distinct [''b'', ''c''] \<and>
   distinct (params ''image_ids[]'' [(''image_ids[]'', ''b''), (''image_ids[]'', ''c'')]) \<and>
   submitVotes env_ack (votes_abc challenge_one 60) startWorld =
     Some (Return (Some Ack),
           \<lparr>out = [Post submit_vote_url
                     [(''c_id'', ''one''), (''image_ids[]'', ''b''), (''image_ids[]'', ''c''),
                      (''layout'', ''scroll''), (''viewed_image_ids[]'', ''a''),
                      (''viewed_image_ids[]'', ''b''), (''viewed_image_ids[]'', ''c'')],
                   Log (VotesSubmitted ''one'')],
             reqs = 1, rpos = 2\<rparr>) \<and>
   list_all (\<lambda>d. distinct (params ''image_ids[]'' d))
     (submissions (newEvents startWorld
        \<lparr>out = [Post submit_vote_url
                     [(''c_id'', ''one''), (''image_ids[]'', ''b''), (''image_ids[]'', ''c''),
                      (''layout'', ''scroll''), (''viewed_image_ids[]'', ''a''),
                      (''viewed_image_ids[]'', ''b''), (''viewed_image_ids[]'', ''c'')],
                   Log (VotesSubmitted ''one'')],
             reqs = 1, rpos = 2\<rparr>))"
proof -
  have ne: "pool_abc \<noteq> []" by (simp add: pool_abc_def)
  have run: "selectLoop pool_abc ''t'' shiftedRobin (initialSelection 60, startWorld) =
     Some (\<lparr>uniqueImageIds = [''b'', ''c''],
             votedImages = [(''image_ids[]'', ''b''), (''image_ids[]'', ''c'')],
             exposureFactor = 140\<rparr>,
           \<lparr>out = [], reqs = 0, rpos = 2\<rparr>)"
    by code_simp
  have sub: "submitVotes env_ack (votes_abc challenge_one 60) startWorld =
     Some (Return (Some Ack),
           \<lparr>out = [Post submit_vote_url
                     [(''c_id'', ''one''), (''image_ids[]'', ''b''), (''image_ids[]'', ''c''),
                      (''layout'', ''scroll''), (''viewed_image_ids[]'', ''a''),
                      (''viewed_image_ids[]'', ''b''), (''viewed_image_ids[]'', ''c'')],
                   Log (VotesSubmitted ''one'')],
             reqs = 1, rpos = 2\<rparr>)"
    by code_simp
  note inst = selection_has_no_duplicates [where imgs = pool_abc and ttl = "''t''"
      and rnd = shiftedRobin and e = 60 and w = startWorld
      and sel = "\<lparr>uniqueImageIds = [''b'', ''c''],
             votedImages = [(''image_ids[]'', ''b''), (''image_ids[]'', ''c'')],
             exposureFactor = 140\<rparr>"
      and w' = "\<lparr>out = [], reqs = 0, rpos = 2\<rparr>"
      and env = env_ack and v = "votes_abc challenge_one 60" and u = startWorld
      and res = "Return (Some Ack)"
      and u' = "\<lparr>out = [Post submit_vote_url
                     [(''c_id'', ''one''), (''image_ids[]'', ''b''), (''image_ids[]'', ''c''),
                      (''layout'', ''scroll''), (''viewed_image_ids[]'', ''a''),
                      (''viewed_image_ids[]'', ''b''), (''viewed_image_ids[]'', ''c'')],
                   Log (VotesSubmitted ''one'')],
             reqs = 1, rpos = 2\<rparr>"]
  from inst ne run sub show ?thesis by simp
qed

text \<open>
  C4. For a pool that is not empty, every request that \<^verbatim>\<open>submitVotes\<close> sends to
  \<^verbatim>\<open>submit_vote\<close> lists, as \<^verbatim>\<open>viewed_image_ids[]\<close>, the identifiers of the whole pool in
  the order of the pool, whatever the draws have chosen; and with a token and the
  exposure of the voting data it sends exactly one.
\<close>

theorem viewed_is_the_whole_pool:
  assumes "vi_images v = Some imgs" and "imgs \<noteq> []"
    and "submitVotes env v w = Some (res, w')"
  shows "list_all (\<lambda>d. params ''viewed_image_ids[]'' d = map image_id imgs)
           (submissions (newEvents w w')) \<and>
         (tokenSet env \<and> (\<exists>vt ex. vi_voting v = Some vt \<and> voting_exposure vt = Some ex)
            \<longrightarrow> length (submissions (newEvents w w')) = 1)"
proof -
  from submitVotes_submissions [OF assms] obtain sel :: selection where
    v: "votedImages sel = map (Pair ''image_ids[]'') (uniqueImageIds sel)"
    and s: "submissions (newEvents w w') =
             (if tokenSet env \<and> (\<exists>vt ex. vi_voting v = Some vt \<and> voting_exposure vt = Some ex)
              then [[(''c_id'', challenge_id (vi_challenge v))] @ votedImages sel @ [(''layout'', ''scroll'')]
                     @ map (\<lambda>img. (''viewed_image_ids[]'', image_id img)) imgs]
              else [])" by blast
  have "params ''viewed_image_ids[]''
     ([(''c_id'', challenge_id (vi_challenge v))] @ votedImages sel @ [(''layout'', ''scroll'')]
        @ map (\<lambda>img. (''viewed_image_ids[]'', image_id img)) imgs) = map image_id imgs"
    unfolding v by (rule params_viewed)
  with s show ?thesis by (simp split: if_splits)
qed

theorem viewed_is_the_whole_pool_witness:
  "vi_images (votes_abc challenge_one 60) = Some pool_abc \<and> pool_abc \<noteq> [] \<and>
   submitVotes env_ack (votes_abc challenge_one 60) startWorld =
     Some (Return (Some Ack),
           \<lparr>out = [Post submit_vote_url
                     [(''c_id'', ''one''), (''image_ids[]'', ''b''), (''image_ids[]'', ''c''),
                      (''layout'', ''scroll''), (''viewed_image_ids[]'', ''a''),
                      (''viewed_image_ids[]'', ''b''), (''viewed_image_ids[]'', ''c'')],
                   Log (VotesSubmitted ''one'')],
             reqs = 1, rpos = 2\<rparr>) \<and>
   tokenSet env_ack \<and>
   (\<exists>vt ex. vi_voting (votes_abc challenge_one 60) = Some vt \<and> voting_exposure vt = Some ex) \<and>
   submissions (newEvents startWorld
      \<lparr>out = [Post submit_vote_url
                     [(''c_id'', ''one''), (''image_ids[]'', ''b''), (''image_ids[]'', ''c''),
                      (''layout'', ''scroll''), (''viewed_image_ids[]'', ''a''),
                      (''viewed_image_ids[]'', ''b''), (''viewed_image_ids[]'', ''c'')],
                   Log (VotesSubmitted ''one'')],
             reqs = 1, rpos = 2\<rparr>) =
     [[(''c_id'', ''one''), (''image_ids[]'', ''b''), (''image_ids[]'', ''c''),
       (''layout'', ''scroll''), (''viewed_image_ids[]'', ''a''),
       (''viewed_image_ids[]'', ''b''), (''viewed_image_ids[]'', ''c'')]] \<and>
   params ''viewed_image_ids[]''
     [(''c_id'', ''one''), (''image_ids[]'', ''b''), (''image_ids[]'', ''c''),
       (''layout'', ''scroll''), (''viewed_image_ids[]'', ''a''),
       (''viewed_image_ids[]'', ''b''), (''viewed_image_ids[]'', ''c'')] = map image_id pool_abc"
proof -
  have i: "vi_images (votes_abc challenge_one 60) = Some pool_abc" by (simp add: votes_abc_def)
  have ne: "pool_abc \<noteq> []" by (simp add: pool_abc_def)
  have run: "submitVotes env_ack (votes_abc challenge_one 60) startWorld =
     Some (Return (Some Ack),
           \<lparr>out = [Post submit_vote_url
                     [(''c_id'', ''one''), (''image_ids[]'', ''b''), (''image_ids[]'', ''c''),
                      (''layout'', ''scroll''), (''viewed_image_ids[]'', ''a''),
                      (''viewed_image_ids[]'', ''b''), (''viewed_image_ids[]'', ''c'')],
                   Log (VotesSubmitted ''one'')],
             reqs = 1, rpos = 2\<rparr>)"
    by code_simp
  have tok: "tokenSet env_ack" by (simp add: tokenSet_def env_ack_def)
  have vt: "\<exists>vt ex. vi_voting (votes_abc challenge_one 60) = Some vt \<and> voting_exposure vt = Some ex"
    by (simp add: votes_abc_def)
  have sub: "submissions (newEvents startWorld
      \<lparr>out = [Post submit_vote_url
                     [(''c_id'', ''one''), (''image_ids[]'', ''b''), (''image_ids[]'', ''c''),
                      (''layout'', ''scroll''), (''viewed_image_ids[]'', ''a''),
                      (''viewed_image_ids[]'', ''b''), (''viewed_image_ids[]'', ''c'')],
                   Log (VotesSubmitted ''one'')],
             reqs = 1, rpos = 2\<rparr>) =
     [[(''c_id'', ''one''), (''image_ids[]'', ''b''), (''image_ids[]'', ''c''),
       (''layout'', ''scroll''), (''viewed_image_ids[]'', ''a''),
       (''viewed_image_ids[]'', ''b''), (''viewed_image_ids[]'', ''c'')]]"
    by (simp add: newEvents_def startWorld_def submissions_def)
  from viewed_is_the_whole_pool [OF i ne run] sub
  have "params ''viewed_image_ids[]''
     [(''c_id'', ''one''), (''image_ids[]'', ''b''), (''image_ids[]'', ''c''),
       (''layout'', ''scroll''), (''viewed_image_ids[]'', ''a''),
       (''viewed_image_ids[]'', ''b''), (''viewed_image_ids[]'', ''c'')] = map image_id pool_abc"
    by simp
  with i ne run tok vt sub show ?thesis by blast
qed

text \<open>
  C5. For a challenge with its member and boost data, the boost step of the orchestrator
  always ends, and it attempts a boost (line 294, then the call of \<^verbatim>\<open>applyBoost\<close>) if and
  only if the state is AVAILABLE, the deadline is present (\<^verbatim>\<open>boost.timeout\<close> is truthy: there
  and not 0) and \<open>0 < deadline - now \<le> 600\<close>. For a clock at or after the epoch the
  deadline 0 is outside the window anyway, and the condition is the one of the claim.
  Without an attempt the step returns and sends nothing to \<^verbatim>\<open>boost_photo\<close>. With an
  attempt, a token and a first entry \<open>i\<close> that is not turboed, the step adds lines 288 and
  294, the request to \<^verbatim>\<open>boost_photo\<close> for the challenge and \<open>i\<close>, and the line of its
  outcome, and nothing else; with a ranking without entries, the error of \<^verbatim>\<open>applyBoost\<close>
  is caught and logged by line 299.
\<close>

theorem boost_gating:
  assumes "challenge_member c = Some m" and "member_boost m = Some b"
  shows "\<exists>res w'. boostStep env now c w = Some (res, w') \<and>
     (boostAttempted (newEvents w w') \<longleftrightarrow>
        state b = ''AVAILABLE'' \<and>
        (\<exists>t. timeout b = Some t \<and> t \<noteq> 0 \<and> 0 < t - now \<and> t - now \<le> 600)) \<and>
     (0 \<le> now \<longrightarrow>
        (boostAttempted (newEvents w w') \<longleftrightarrow>
           state b = ''AVAILABLE'' \<and> (\<exists>t. timeout b = Some t \<and> 0 < t - now \<and> t - now \<le> 600))) \<and>
     (\<not> boostAttempted (newEvents w w') \<longrightarrow>
        res = Return () \<and> boostRequests (newEvents w w') = [] \<and> reqs w' = reqs w) \<and>
     (boostAttempted (newEvents w w') \<longrightarrow> tokenSet env \<longrightarrow> member_ranking m = Some rk \<longrightarrow>
        entries rk = Some es \<longrightarrow> getFirstNonTurboKey es = Some i \<longrightarrow> i \<noteq> [] \<longrightarrow>
        res = Return () \<and> reqs w' = reqs w + 1 \<and>
        (\<exists>t. timeout b = Some t \<and>
           newEvents w w' =
             Log (BoostAvailable (title c)) # Log (ExecutingBoost ((t - now) div 60))
             # Post boost_photo_url [(''c_id'', challenge_id c), (''image_id'', i)]
             # (case axios env (reqs w) boost_photo_url [(''c_id'', challenge_id c), (''image_id'', i)] of
                  None \<Rightarrow> [Error (PostRequestFailed boost_photo_url),
                            Error (FailedToApplyBoost (challenge_id c))]
                | Some a \<Rightarrow> [Log (BoostApplied i)]))) \<and>
     (boostAttempted (newEvents w w') \<longrightarrow> member_ranking m = Some rk \<longrightarrow> entries rk = None \<longrightarrow>
        res = Return () \<and> reqs w' = reqs w \<and>
        (\<exists>t. timeout b = Some t \<and>
           newEvents w w' =
             [Log (BoostAvailable (title c)), Log (ExecutingBoost ((t - now) div 60)),
              Error (ErrorDuringBoost ''Cannot read properties of undefined (reading 'length')'')]))"
proof (cases "state b = ''AVAILABLE'' \<and>
      (\<exists>t. timeout b = Some t \<and> t \<noteq> 0 \<and> 0 < t - now \<and> t - now \<le> 600)")
  case True
  then obtain t where t: "state b = ''AVAILABLE''" "timeout b = Some t" "t \<noteq> 0"
    "0 < t - now" "t - now \<le> 600" by blast
  from boostStep_attempts [OF assms t, of env w rk es i] obtain res w' where
    all: "boostStep env now c w = Some (res, w') \<and> boostAttempted (newEvents w w') \<and>
     (tokenSet env \<longrightarrow> member_ranking m = Some rk \<longrightarrow> entries rk = Some es \<longrightarrow>
        getFirstNonTurboKey es = Some i \<longrightarrow> i \<noteq> [] \<longrightarrow>
        res = Return () \<and> reqs w' = reqs w + 1 \<and>
        newEvents w w' =
          Log (BoostAvailable (title c)) # Log (ExecutingBoost ((t - now) div 60))
          # Post boost_photo_url [(''c_id'', challenge_id c), (''image_id'', i)]
          # (case axios env (reqs w) boost_photo_url [(''c_id'', challenge_id c), (''image_id'', i)] of
               None \<Rightarrow> [Error (PostRequestFailed boost_photo_url),
                         Error (FailedToApplyBoost (challenge_id c))]
             | Some a \<Rightarrow> [Log (BoostApplied i)])) \<and>
     (member_ranking m = Some rk \<longrightarrow> entries rk = None \<longrightarrow>
        res = Return () \<and> reqs w' = reqs w \<and>
        newEvents w w' =
          [Log (BoostAvailable (title c)), Log (ExecutingBoost ((t - now) div 60)),
           Error (ErrorDuringBoost ''Cannot read properties of undefined (reading 'length')'')])"
    by (elim exE) (rule that)
  from all have run: "boostStep env now c w = Some (res, w')"
    and att: "boostAttempted (newEvents w w')" by simp_all
  from all have req: "tokenSet env \<longrightarrow> member_ranking m = Some rk \<longrightarrow> entries rk = Some es \<longrightarrow>
        getFirstNonTurboKey es = Some i \<longrightarrow> i \<noteq> [] \<longrightarrow>
        res = Return () \<and> reqs w' = reqs w + 1 \<and>
        newEvents w w' =
          Log (BoostAvailable (title c)) # Log (ExecutingBoost ((t - now) div 60))
          # Post boost_photo_url [(''c_id'', challenge_id c), (''image_id'', i)]
          # (case axios env (reqs w) boost_photo_url [(''c_id'', challenge_id c), (''image_id'', i)] of
               None \<Rightarrow> [Error (PostRequestFailed boost_photo_url),
                         Error (FailedToApplyBoost (challenge_id c))]
             | Some a \<Rightarrow> [Log (BoostApplied i)])"
    by (elim conjE)
  from all have thr: "member_ranking m = Some rk \<longrightarrow> entries rk = None \<longrightarrow>
        res = Return () \<and> reqs w' = reqs w \<and>
        newEvents w w' =
          [Log (BoostAvailable (title c)), Log (ExecutingBoost ((t - now) div 60)),
           Error (ErrorDuringBoost ''Cannot read properties of undefined (reading 'length')'')]"
    by (elim conjE)
  from True t have g2: "state b = ''AVAILABLE'' \<and> (\<exists>t. timeout b = Some t \<and> 0 < t - now \<and> t - now \<le> 600)"
    by blast
  show ?thesis
    apply (rule exI [of _ res], rule exI [of _ w'])
    using run att req thr True g2 t(2) by simp
next
  case False
  from boostStep_skips [OF assms False, of env w] obtain w' where
    r: "boostStep env now c w = Some (Return (), w')" "\<not> boostAttempted (newEvents w w')"
      "boostRequests (newEvents w w') = []" "reqs w' = reqs w" by blast
  have "0 \<le> now \<Longrightarrow> \<not> (state b = ''AVAILABLE'' \<and>
           (\<exists>t. timeout b = Some t \<and> 0 < t - now \<and> t - now \<le> 600))"
    using False by auto
  with r False show ?thesis by auto
qed

theorem boost_gating_witness:
  "challenge_member challenge_one =
     Some \<lparr>member_boost = Some \<lparr>state = ''AVAILABLE'', timeout = Some 1300\<rparr>,
           member_ranking =
             Some \<lparr>ranking_exposure = Some \<lparr>exposure_factor = 60\<rparr>,
                   entries = Some [\<lparr>entry_id = ''e1'', turbo = True\<rparr>,
                                   \<lparr>entry_id = ''e2'', turbo = False\<rparr>]\<rparr>\<rparr> \<and>
   (0::int) \<le> 1000 \<and> tokenSet env_ack \<and>
   getFirstNonTurboKey [\<lparr>entry_id = ''e1'', turbo = True\<rparr>, \<lparr>entry_id = ''e2'', turbo = False\<rparr>]
     = Some ''e2'' \<and> ''e2'' \<noteq> [] \<and>
   boostStep env_ack 1000 challenge_one startWorld =
     Some (Return (),
           \<lparr>out = [Log (BoostAvailable ''one''), Log (ExecutingBoost 5),
                   Post boost_photo_url [(''c_id'', ''one''), (''image_id'', ''e2'')],
                   Log (BoostApplied ''e2'')],
             reqs = 1, rpos = 0\<rparr>) \<and>
   boostAttempted (newEvents startWorld
           \<lparr>out = [Log (BoostAvailable ''one''), Log (ExecutingBoost 5),
                   Post boost_photo_url [(''c_id'', ''one''), (''image_id'', ''e2'')],
                   Log (BoostApplied ''e2'')],
             reqs = 1, rpos = 0\<rparr>) \<and>
   newEvents startWorld
           \<lparr>out = [Log (BoostAvailable ''one''), Log (ExecutingBoost 5),
                   Post boost_photo_url [(''c_id'', ''one''), (''image_id'', ''e2'')],
                   Log (BoostApplied ''e2'')],
             reqs = 1, rpos = 0\<rparr> =
     [Log (BoostAvailable ''one''), Log (ExecutingBoost 5),
      Post boost_photo_url [(''c_id'', ''one''), (''image_id'', ''e2'')],
      Log (BoostApplied ''e2'')] \<and>
   challenge_member challenge_broken =
     Some \<lparr>member_boost = Some \<lparr>state = ''USED'', timeout = None\<rparr>, member_ranking = None\<rparr> \<and>
   boostStep env_ack 1000 challenge_broken startWorld = Some (Return (), startWorld) \<and>
   \<not> boostAttempted (newEvents startWorld startWorld) \<and>
   boostRequests (newEvents startWorld startWorld) = [] \<and>
   challenge_member challenge_unlisted =
     Some \<lparr>member_boost = Some \<lparr>state = ''AVAILABLE'', timeout = Some 1300\<rparr>,
           member_ranking =
             Some \<lparr>ranking_exposure = Some \<lparr>exposure_factor = 100\<rparr>, entries = None\<rparr>\<rparr> \<and>
   boostStep env_ack 1000 challenge_unlisted startWorld =
     Some (Return (),
           \<lparr>out = [Log (BoostAvailable ''unlisted''), Log (ExecutingBoost 5),
                   Error (ErrorDuringBoost ''Cannot read properties of undefined (reading 'length')'')],
             reqs = 0, rpos = 0\<rparr>) \<and>
   newEvents startWorld
           \<lparr>out = [Log (BoostAvailable ''unlisted''), Log (ExecutingBoost 5),
                   Error (ErrorDuringBoost ''Cannot read properties of undefined (reading 'length')'')],
             reqs = 0, rpos = 0\<rparr> =
     [Log (BoostAvailable ''unlisted''), Log (ExecutingBoost 5),
      Error (ErrorDuringBoost ''Cannot read properties of undefined (reading 'length')'')]"
proof -
  let ?es = "[\<lparr>entry_id = ''e1'', turbo = True\<rparr>, \<lparr>entry_id = ''e2'', turbo = False\<rparr>]"
  let ?b = "\<lparr>state = ''AVAILABLE'', timeout = Some 1300\<rparr>"
  let ?rk = "\<lparr>ranking_exposure = Some \<lparr>exposure_factor = 60\<rparr>, entries = Some ?es\<rparr>"
  let ?m = "\<lparr>member_boost = Some ?b, member_ranking = Some ?rk\<rparr>"
  let ?w1 = "\<lparr>out = [Log (BoostAvailable ''one''), Log (ExecutingBoost 5),
                   Post boost_photo_url [(''c_id'', ''one''), (''image_id'', ''e2'')],
                   Log (BoostApplied ''e2'')],
             reqs = 1, rpos = 0\<rparr>"
  let ?bb = "\<lparr>state = ''USED'', timeout = None\<rparr>"
  let ?mb = "\<lparr>member_boost = Some ?bb, member_ranking = None\<rparr>"
  let ?ru = "\<lparr>ranking_exposure = Some \<lparr>exposure_factor = 100\<rparr>, entries = None\<rparr>"
  let ?mu = "\<lparr>member_boost = Some ?b, member_ranking = Some ?ru\<rparr>"
  let ?wu = "\<lparr>out = [Log (BoostAvailable ''unlisted''), Log (ExecutingBoost 5),
                   Error (ErrorDuringBoost ''Cannot read properties of undefined (reading 'length')'')],
             reqs = 0, rpos = 0\<rparr>"
  have m1: "challenge_member challenge_one = Some ?m"
    by (simp add: challenge_one_def mkChallenge_def)
  have b1: "member_boost ?m = Some ?b" by simp
  have tok: "tokenSet env_ack" by (simp add: tokenSet_def env_ack_def)
  have key: "getFirstNonTurboKey ?es = Some ''e2''" by simp
  have ttl: "title challenge_one = ''one''" "challenge_id challenge_one = ''one''"
    by (simp_all add: challenge_one_def mkChallenge_def)
  have ack: "axios env_ack n u d = Some Ack" for n u d by (simp add: env_ack_def ackServer_def)
  have run1: "boostStep env_ack 1000 challenge_one startWorld = Some (Return (), ?w1)"
    by code_simp
  note i1 = boost_gating [OF m1 b1, where env = env_ack and now = 1000 and w = startWorld
      and rk = ?rk and es = ?es and i = "''e2''"]
  from i1 run1 have att1: "boostAttempted (newEvents startWorld ?w1)" by simp
  from i1 run1 att1 tok key ttl ack have ev1: "newEvents startWorld ?w1 =
     [Log (BoostAvailable ''one''), Log (ExecutingBoost 5),
      Post boost_photo_url [(''c_id'', ''one''), (''image_id'', ''e2'')],
      Log (BoostApplied ''e2'')]" by simp
  have m2: "challenge_member challenge_broken = Some ?mb" by (simp add: challenge_broken_def)
  have b2: "member_boost ?mb = Some ?bb" by simp
  have run2: "boostStep env_ack 1000 challenge_broken startWorld = Some (Return (), startWorld)"
    by code_simp
  note i2 = boost_gating [OF m2 b2, where env = env_ack and now = 1000 and w = startWorld]
  from i2 run2 have att2: "\<not> boostAttempted (newEvents startWorld startWorld)" by simp
  from i2 run2 att2 have rq2: "boostRequests (newEvents startWorld startWorld) = []" by simp
  have m3: "challenge_member challenge_unlisted = Some ?mu" by (simp add: challenge_unlisted_def)
  have b3: "member_boost ?mu = Some ?b" by simp
  have ttl3: "title challenge_unlisted = ''unlisted''" by (simp add: challenge_unlisted_def)
  have run3: "boostStep env_ack 1000 challenge_unlisted startWorld = Some (Return (), ?wu)"
    by code_simp
  note i3 = boost_gating [OF m3 b3, where env = env_ack and now = 1000 and w = startWorld
      and rk = ?ru]
  from i3 run3 have att3: "boostAttempted (newEvents startWorld ?wu)" by simp
  from i3 run3 att3 ttl3 have ev3: "newEvents startWorld ?wu =
     [Log (BoostAvailable ''unlisted''), Log (ExecutingBoost 5),
      Error (ErrorDuringBoost ''Cannot read properties of undefined (reading 'length')'')]"
    by simp
  have z: "(0::int) \<le> 1000" and ne: "''e2'' \<noteq> []" by simp_all
  show ?thesis by (intro conjI m1 z tok key ne run1 att1 ev1 m2 run2 att2 rq2 m3 run3 ev3)
qed

text \<open>
  C6, as amended. For a challenge whose exposure can be read, the voting step fetches the
  pool if and only if the exposure factor is below 100 and the start time is strictly
  before now. When the test fails the step returns and nothing happens. When it holds,
  with a token, every run that ends begins with line 104 and the request of the pool to
  \<^verbatim>\<open>get_vote_images\<close>; when the fetch gives no pool the step ends there; and on an answer
  with a pool that is not empty, the exposure of the voting data, pairwise different
  identifiers and fair draws, the step ends: the selection loop ends, and the step adds
  the request to \<^verbatim>\<open>submit_vote\<close> with the selection, the line of its outcome and the
  pause of 2000 to 5000 milliseconds.
\<close>

theorem vote_gating:
  assumes m: "challenge_member c = Some m" and r: "member_ranking m = Some r"
    and ex: "ranking_exposure r = Some ex"
  shows
   "(\<not> (exposure_factor ex < 100 \<and> start_time c < now) \<longrightarrow>
       voteStep env now c w = Some (Return (), w)) \<and>
    (\<forall>res w'. voteStep env now c w = Some (res, w') \<longrightarrow>
       (poolFetched c (newEvents w w') \<longleftrightarrow> exposure_factor ex < 100 \<and> start_time c < now)) \<and>
    (exposure_factor ex < 100 \<and> start_time c < now \<and> tokenSet env \<longrightarrow>
       (\<forall>res w'. voteStep env now c w = Some (res, w') \<longrightarrow>
          (\<exists>evs. newEvents w w' =
             Log (FetchingVoteImages (title c))
             # Post vote_images_url [(''limit'', ''100''), (''url'', url c)] # evs))) \<and>
    (exposure_factor ex < 100 \<and> start_time c < now \<and>
     getVoteImages env c w = Some (Return None, wn) \<longrightarrow>
       voteStep env now c w = Some (Return (), wn)) \<and>
    (exposure_factor ex < 100 \<and> start_time c < now \<and> tokenSet env \<and>
     axios env (reqs w) vote_images_url [(''limit'', ''100''), (''url'', url c)]
       = Some (VoteImages v) \<and>
     vi_images v = Some imgs \<and> imgs \<noteq> [] \<and>
     vi_voting v = Some vt \<and> voting_exposure vt = Some e \<and>
     distinct (map image_id imgs) \<and> fairDraws (random env) (length imgs) \<longrightarrow>
       (\<exists>sel w1 w2.
          selectLoop imgs (title (vi_challenge v)) (random env)
            (initialSelection (exposure_factor e),
             w\<lparr>out := out w @ [Log (FetchingVoteImages (title c)),
                                  Post vote_images_url [(''limit'', ''100''), (''url'', url c)],
                                  Log (FetchedImages (length imgs) (title c))],
                reqs := reqs w + 1\<rparr>) = Some (sel, w1) \<and>
          voteStep env now c w = Some (Return (), w2) \<and>
          out w2 = out w1
             @ Post submit_vote_url
                 ([(''c_id'', challenge_id (vi_challenge v))] @ votedImages sel
                    @ [(''layout'', ''scroll'')]
                    @ map (\<lambda>img. (''viewed_image_ids[]'', image_id img)) imgs)
             # (case axios env (reqs w1) submit_vote_url
                       ([(''c_id'', challenge_id (vi_challenge v))] @ votedImages sel
                          @ [(''layout'', ''scroll'')]
                          @ map (\<lambda>img. (''viewed_image_ids[]'', image_id img)) imgs) of
                  None \<Rightarrow> [Error (PostRequestFailed submit_vote_url),
                            Error (FailedToSubmitVotes (title (vi_challenge v)))]
                | Some a \<Rightarrow> [Log (VotesSubmitted (title (vi_challenge v)))])
             @ [Sleep (2000 + random env (rpos w1) mod 3001)] \<and>
          reqs w2 = reqs w1 + 1 \<and> rpos w2 = rpos w1 + 1))"
proof -
  have c1: "\<not> (exposure_factor ex < 100 \<and> start_time c < now) \<longrightarrow>
       voteStep env now c w = Some (Return (), w)"
    using m r ex by (auto simp: voteStep_def ret_def)
  have c2: "\<forall>res w'. voteStep env now c w = Some (res, w') \<longrightarrow>
       (poolFetched c (newEvents w w') \<longleftrightarrow> exposure_factor ex < 100 \<and> start_time c < now)"
  proof (intro allI impI)
    fix res w' assume run: "voteStep env now c w = Some (res, w')"
    show "poolFetched c (newEvents w w') \<longleftrightarrow> exposure_factor ex < 100 \<and> start_time c < now"
    proof (cases "exposure_factor ex < 100 \<and> start_time c < now")
      case False
      with c1 run have "w' = w" by simp
      with False show ?thesis by (simp add: newEvents_def poolFetched_def)
    next
      case True
      have "startsWith (Log (FetchingVoteImages (title c)))
              (tryCatch (voteBody env c)
                 (\<lambda>err. andThen (emit (Error (ErrorVotingOnChallenge (title c)))) (\<lambda>_.
                                  emit (Error (ErrorMessage err)))))"
        by (rule startsWith_tryCatch [OF startsWith_voteBody]) (intro growing_intros)
      moreover from True m r ex run have "tryCatch (voteBody env c)
                 (\<lambda>err. andThen (emit (Error (ErrorVotingOnChallenge (title c)))) (\<lambda>_.
                                  emit (Error (ErrorMessage err)))) w = Some (res, w')"
        by (simp add: voteStep_def)
      ultimately obtain evs where "out w' = out w @ Log (FetchingVoteImages (title c)) # evs"
        unfolding startsWith_def by blast
      then have "poolFetched c (newEvents w w')" by (simp add: newEvents_def poolFetched_def)
      with True show ?thesis by simp
    qed
  qed
  have c3: "exposure_factor ex < 100 \<and> start_time c < now \<and> tokenSet env \<longrightarrow>
       (\<forall>res w'. voteStep env now c w = Some (res, w') \<longrightarrow>
          (\<exists>evs. newEvents w w' =
             Log (FetchingVoteImages (title c))
             # Post vote_images_url [(''limit'', ''100''), (''url'', url c)] # evs))"
  proof (intro allI impI)
    fix res w'
    assume g: "exposure_factor ex < 100 \<and> start_time c < now \<and> tokenSet env"
      and run: "voteStep env now c w = Some (res, w')"
    from g have g1: "exposure_factor ex < 100" and g2: "start_time c < now" and g3: "tokenSet env"
      by simp_all
    from voteStep_request [OF m r ex g1 g2 g3 run] obtain evs where
      "out w' = out w @ Log (FetchingVoteImages (title c))
           # Post vote_images_url [(''limit'', ''100''), (''url'', url c)] # evs" by blast
    then have "newEvents w w' = Log (FetchingVoteImages (title c))
           # Post vote_images_url [(''limit'', ''100''), (''url'', url c)] # evs"
      by (simp add: newEvents_def)
    then show "\<exists>evs. newEvents w w' = Log (FetchingVoteImages (title c))
           # Post vote_images_url [(''limit'', ''100''), (''url'', url c)] # evs" by blast
  qed
  have c4: "exposure_factor ex < 100 \<and> start_time c < now \<and>
     getVoteImages env c w = Some (Return None, wn) \<longrightarrow>
       voteStep env now c w = Some (Return (), wn)"
    using m r ex by (simp add: voteStep_def tryCatch_def voteBody_def andThen_def ret_def)
  have c5: "exposure_factor ex < 100 \<and> start_time c < now \<and> tokenSet env \<and>
     axios env (reqs w) vote_images_url [(''limit'', ''100''), (''url'', url c)]
       = Some (VoteImages v) \<and>
     vi_images v = Some imgs \<and> imgs \<noteq> [] \<and>
     vi_voting v = Some vt \<and> voting_exposure vt = Some e \<and>
     distinct (map image_id imgs) \<and> fairDraws (random env) (length imgs) \<longrightarrow>
       (\<exists>sel w1 w2.
          selectLoop imgs (title (vi_challenge v)) (random env)
            (initialSelection (exposure_factor e),
             w\<lparr>out := out w @ [Log (FetchingVoteImages (title c)),
                                  Post vote_images_url [(''limit'', ''100''), (''url'', url c)],
                                  Log (FetchedImages (length imgs) (title c))],
                reqs := reqs w + 1\<rparr>) = Some (sel, w1) \<and>
          voteStep env now c w = Some (Return (), w2) \<and>
          out w2 = out w1
             @ Post submit_vote_url
                 ([(''c_id'', challenge_id (vi_challenge v))] @ votedImages sel
                    @ [(''layout'', ''scroll'')]
                    @ map (\<lambda>img. (''viewed_image_ids[]'', image_id img)) imgs)
             # (case axios env (reqs w1) submit_vote_url
                       ([(''c_id'', challenge_id (vi_challenge v))] @ votedImages sel
                          @ [(''layout'', ''scroll'')]
                          @ map (\<lambda>img. (''viewed_image_ids[]'', image_id img)) imgs) of
                  None \<Rightarrow> [Error (PostRequestFailed submit_vote_url),
                            Error (FailedToSubmitVotes (title (vi_challenge v)))]
                | Some a \<Rightarrow> [Log (VotesSubmitted (title (vi_challenge v)))])
             @ [Sleep (2000 + random env (rpos w1) mod 3001)] \<and>
          reqs w2 = reqs w1 + 1 \<and> rpos w2 = rpos w1 + 1)"
  proof (rule impI)
    assume g: "exposure_factor ex < 100 \<and> start_time c < now \<and> tokenSet env \<and>
     axios env (reqs w) vote_images_url [(''limit'', ''100''), (''url'', url c)]
       = Some (VoteImages v) \<and>
     vi_images v = Some imgs \<and> imgs \<noteq> [] \<and>
     vi_voting v = Some vt \<and> voting_exposure vt = Some e \<and>
     distinct (map image_id imgs) \<and> fairDraws (random env) (length imgs)"
    then have g1: "exposure_factor ex < 100" and g2: "start_time c < now" and g3: "tokenSet env"
      and g4: "axios env (reqs w) vote_images_url [(''limit'', ''100''), (''url'', url c)]
               = Some (VoteImages v)"
      and g5: "vi_images v = Some imgs" and g6: "imgs \<noteq> []"
      and g7: "vi_voting v = Some vt" and g8: "voting_exposure vt = Some e"
      and g9: "distinct (map image_id imgs)" and g10: "fairDraws (random env) (length imgs)"
      by simp_all
    show "\<exists>sel w1 w2.
          selectLoop imgs (title (vi_challenge v)) (random env)
            (initialSelection (exposure_factor e),
             w\<lparr>out := out w @ [Log (FetchingVoteImages (title c)),
                                  Post vote_images_url [(''limit'', ''100''), (''url'', url c)],
                                  Log (FetchedImages (length imgs) (title c))],
                reqs := reqs w + 1\<rparr>) = Some (sel, w1) \<and>
          voteStep env now c w = Some (Return (), w2) \<and>
          out w2 = out w1
             @ Post submit_vote_url
                 ([(''c_id'', challenge_id (vi_challenge v))] @ votedImages sel
                    @ [(''layout'', ''scroll'')]
                    @ map (\<lambda>img. (''viewed_image_ids[]'', image_id img)) imgs)
             # (case axios env (reqs w1) submit_vote_url
                       ([(''c_id'', challenge_id (vi_challenge v))] @ votedImages sel
                          @ [(''layout'', ''scroll'')]
                          @ map (\<lambda>img. (''viewed_image_ids[]'', image_id img)) imgs) of
                  None \<Rightarrow> [Error (PostRequestFailed submit_vote_url),
                            Error (FailedToSubmitVotes (title (vi_challenge v)))]
                | Some a \<Rightarrow> [Log (VotesSubmitted (title (vi_challenge v)))])
             @ [Sleep (2000 + random env (rpos w1) mod 3001)] \<and>
          reqs w2 = reqs w1 + 1 \<and> rpos w2 = rpos w1 + 1"
      by (rule voteStep_votes [OF m r ex g1 g2 g3 g4 g5 g6 g7 g8 g9 g10])
  qed
  show ?thesis by (intro conjI c1 c2 c3 c4 c5)
qed

theorem vote_gating_witness:
  "challenge_member challenge_one =
     Some \<lparr>member_boost = Some \<lparr>state = ''AVAILABLE'', timeout = Some 1300\<rparr>,
           member_ranking =
             Some \<lparr>ranking_exposure = Some \<lparr>exposure_factor = 60\<rparr>,
                   entries = Some [\<lparr>entry_id = ''e1'', turbo = True\<rparr>,
                                   \<lparr>entry_id = ''e2'', turbo = False\<rparr>]\<rparr>\<rparr> \<and>
   exposure_factor \<lparr>exposure_factor = 60\<rparr> < 100 \<and> start_time challenge_one < 1000 \<and>
   tokenSet env3 \<and>
   axios env3 (reqs startWorld) vote_images_url [(''limit'', ''100''), (''url'', url challenge_one)]
     = Some (VoteImages (votes_abc challenge_one 60)) \<and>
   vi_images (votes_abc challenge_one 60) = Some pool_abc \<and> pool_abc \<noteq> [] \<and>
   vi_voting (votes_abc challenge_one 60) =
     Some \<lparr>voting_exposure = Some \<lparr>exposure_factor = 60\<rparr>\<rparr> \<and>
   voting_exposure \<lparr>voting_exposure = Some \<lparr>exposure_factor = 60\<rparr>\<rparr> =
     Some \<lparr>exposure_factor = 60\<rparr> \<and>
   distinct (map image_id pool_abc) \<and> fairDraws (random env3) (length pool_abc) \<and>
   voteStep env3 1000 challenge_one startWorld =
     Some (Return (),
           \<lparr>out = [Log (FetchingVoteImages ''one''),
                   Post vote_images_url [(''limit'', ''100''), (''url'', ''one'')],
                   Log (FetchedImages 3 ''one''),
                   Post submit_vote_url
                     [(''c_id'', ''one''), (''image_ids[]'', ''b''), (''image_ids[]'', ''c''),
                      (''layout'', ''scroll''), (''viewed_image_ids[]'', ''a''),
                      (''viewed_image_ids[]'', ''b''), (''viewed_image_ids[]'', ''c'')],
                   Log (VotesSubmitted ''one''), Sleep 2003],
             reqs = 2, rpos = 3\<rparr>) \<and>
   poolFetched challenge_one (newEvents startWorld
           \<lparr>out = [Log (FetchingVoteImages ''one''),
                   Post vote_images_url [(''limit'', ''100''), (''url'', ''one'')],
                   Log (FetchedImages 3 ''one''),
                   Post submit_vote_url
                     [(''c_id'', ''one''), (''image_ids[]'', ''b''), (''image_ids[]'', ''c''),
                      (''layout'', ''scroll''), (''viewed_image_ids[]'', ''a''),
                      (''viewed_image_ids[]'', ''b''), (''viewed_image_ids[]'', ''c'')],
                   Log (VotesSubmitted ''one''), Sleep 2003],
             reqs = 2, rpos = 3\<rparr>) \<and>
   (\<exists>sel w1.
      selectLoop pool_abc ''one'' shiftedRobin
        (initialSelection 60,
         \<lparr>out = [Log (FetchingVoteImages ''one''),
                 Post vote_images_url [(''limit'', ''100''), (''url'', ''one'')],
                 Log (FetchedImages 3 ''one'')], reqs = 1, rpos = 0\<rparr>) = Some (sel, w1) \<and>
      votedImages sel = [(''image_ids[]'', ''b''), (''image_ids[]'', ''c'')] \<and>
      reqs w1 = 1 \<and> rpos w1 = 2) \<and>
   (\<exists>evs. newEvents startWorld
           \<lparr>out = [Log (FetchingVoteImages ''one''),
                   Post vote_images_url [(''limit'', ''100''), (''url'', ''one'')],
                   Log (FetchedImages 3 ''one''),
                   Post submit_vote_url
                     [(''c_id'', ''one''), (''image_ids[]'', ''b''), (''image_ids[]'', ''c''),
                      (''layout'', ''scroll''), (''viewed_image_ids[]'', ''a''),
                      (''viewed_image_ids[]'', ''b''), (''viewed_image_ids[]'', ''c'')],
                   Log (VotesSubmitted ''one''), Sleep 2003],
             reqs = 2, rpos = 3\<rparr> =
        Log (FetchingVoteImages (title challenge_one))
        # Post vote_images_url [(''limit'', ''100''), (''url'', url challenge_one)] # evs) \<and>
   (\<exists>sel w1 w2.
      selectLoop pool_abc (title (vi_challenge (votes_abc challenge_one 60))) (random env3)
        (initialSelection (exposure_factor \<lparr>exposure_factor = 60\<rparr>),
         startWorld\<lparr>out := out startWorld @
              [Log (FetchingVoteImages (title challenge_one)),
               Post vote_images_url [(''limit'', ''100''), (''url'', url challenge_one)],
               Log (FetchedImages (length pool_abc) (title challenge_one))],
            reqs := reqs startWorld + 1\<rparr>) = Some (sel, w1) \<and>
      voteStep env3 1000 challenge_one startWorld = Some (Return (), w2) \<and>
      out w2 = out w1
         @ Post submit_vote_url
             ([(''c_id'', challenge_id (vi_challenge (votes_abc challenge_one 60)))]
                @ votedImages sel @ [(''layout'', ''scroll'')]
                @ map (\<lambda>img. (''viewed_image_ids[]'', image_id img)) pool_abc)
         # (case axios env3 (reqs w1) submit_vote_url
                   ([(''c_id'', challenge_id (vi_challenge (votes_abc challenge_one 60)))]
                      @ votedImages sel @ [(''layout'', ''scroll'')]
                      @ map (\<lambda>img. (''viewed_image_ids[]'', image_id img)) pool_abc) of
              None \<Rightarrow> [Error (PostRequestFailed submit_vote_url),
                        Error (FailedToSubmitVotes (title (vi_challenge (votes_abc challenge_one 60))))]
            | Some a \<Rightarrow> [Log (VotesSubmitted (title (vi_challenge (votes_abc challenge_one 60))))])
         @ [Sleep (2000 + random env3 (rpos w1) mod 3001)] \<and>
      reqs w2 = reqs w1 + 1 \<and> rpos w2 = rpos w1 + 1) \<and>
   getVoteImages env_ack challenge_one startWorld =
     Some (Return None,
           \<lparr>out = [Log (FetchingVoteImages ''one''),
                   Post vote_images_url [(''limit'', ''100''), (''url'', ''one'')],
                   Warn (NoImagesAvailable ''one'')],
             reqs = 1, rpos = 0\<rparr>) \<and>
   voteStep env_ack 1000 challenge_one startWorld =
     Some (Return (),
           \<lparr>out = [Log (FetchingVoteImages ''one''),
                   Post vote_images_url [(''limit'', ''100''), (''url'', ''one'')],
                   Warn (NoImagesAvailable ''one'')],
             reqs = 1, rpos = 0\<rparr>) \<and>
   challenge_member challenge_unlisted =
     Some \<lparr>member_boost = Some \<lparr>state = ''AVAILABLE'', timeout = Some 1300\<rparr>,
           member_ranking =
             Some \<lparr>ranking_exposure = Some \<lparr>exposure_factor = 100\<rparr>, entries = None\<rparr>\<rparr> \<and>
   \<not> (exposure_factor \<lparr>exposure_factor = 100\<rparr> < 100 \<and> start_time challenge_unlisted < 1000) \<and>
   voteStep env3 1000 challenge_unlisted startWorld = Some (Return (), startWorld) \<and>
   \<not> poolFetched challenge_unlisted (newEvents startWorld startWorld)"
proof -
  let ?es = "[\<lparr>entry_id = ''e1'', turbo = True\<rparr>, \<lparr>entry_id = ''e2'', turbo = False\<rparr>]"
  let ?b = "\<lparr>state = ''AVAILABLE'', timeout = Some 1300\<rparr>"
  let ?ex = "\<lparr>exposure_factor = 60\<rparr>"
  let ?rk = "\<lparr>ranking_exposure = Some ?ex, entries = Some ?es\<rparr>"
  let ?m = "\<lparr>member_boost = Some ?b, member_ranking = Some ?rk\<rparr>"
  let ?vt = "\<lparr>voting_exposure = Some ?ex\<rparr>"
  let ?w0 = "\<lparr>out = [Log (FetchingVoteImages ''one''),
                 Post vote_images_url [(''limit'', ''100''), (''url'', ''one'')],
                 Log (FetchedImages 3 ''one'')], reqs = 1, rpos = 0\<rparr>"
  let ?w2 = "\<lparr>out = [Log (FetchingVoteImages ''one''),
                   Post vote_images_url [(''limit'', ''100''), (''url'', ''one'')],
                   Log (FetchedImages 3 ''one''),
                   Post submit_vote_url
                     [(''c_id'', ''one''), (''image_ids[]'', ''b''), (''image_ids[]'', ''c''),
                      (''layout'', ''scroll''), (''viewed_image_ids[]'', ''a''),
                      (''viewed_image_ids[]'', ''b''), (''viewed_image_ids[]'', ''c'')],
                   Log (VotesSubmitted ''one''), Sleep 2003],
             reqs = 2, rpos = 3\<rparr>"
  let ?wn = "\<lparr>out = [Log (FetchingVoteImages ''one''),
                   Post vote_images_url [(''limit'', ''100''), (''url'', ''one'')],
                   Warn (NoImagesAvailable ''one'')],
             reqs = 1, rpos = 0\<rparr>"
  let ?ru = "\<lparr>ranking_exposure = Some \<lparr>exposure_factor = 100\<rparr>, entries = None\<rparr>"
  let ?mu = "\<lparr>member_boost = Some ?b, member_ranking = Some ?ru\<rparr>"
  have m1: "challenge_member challenge_one = Some ?m"
    by (simp add: challenge_one_def mkChallenge_def)
  have r1: "member_ranking ?m = Some ?rk" and x1: "ranking_exposure ?rk = Some ?ex" by simp_all
  have g1: "exposure_factor ?ex < 100" and g2: "start_time challenge_one < 1000"
    by (simp_all add: challenge_one_def mkChallenge_def)
  have tok: "tokenSet env3" by (simp add: tokenSet_def env3_def)
  have ans: "axios env3 (reqs startWorld) vote_images_url
      [(''limit'', ''100''), (''url'', url challenge_one)] = Some (VoteImages (votes_abc challenge_one 60))"
    by code_simp
  have im: "vi_images (votes_abc challenge_one 60) = Some pool_abc"
    and vt: "vi_voting (votes_abc challenge_one 60) = Some ?vt"
    and ve: "voting_exposure ?vt = Some ?ex"
    by (simp_all add: votes_abc_def)
  have ne: "pool_abc \<noteq> []" and d: "distinct (map image_id pool_abc)"
    by (simp_all add: pool_abc_def)
  have rn: "random env3 = shiftedRobin" by (simp add: env3_def)
  have f: "fairDraws (random env3) (length pool_abc)"
    unfolding rn by (rule fair_shiftedRobin) (simp add: pool_abc_def)
  have run: "voteStep env3 1000 challenge_one startWorld = Some (Return (), ?w2)" by code_simp
  note i1 = vote_gating [OF m1 r1 x1, where env = env3 and now = 1000 and w = startWorld
      and wn = startWorld and v = "votes_abc challenge_one 60" and imgs = pool_abc and vt = ?vt and e = ?ex]
  note iff = i1 [THEN conjunct2, THEN conjunct1]
  from iff run g1 g2 have pf: "poolFetched challenge_one (newEvents startWorld ?w2)" by blast
  note starts = i1 [THEN conjunct2, THEN conjunct2, THEN conjunct1]
  from starts g1 g2 tok run have pre: "\<exists>evs. newEvents startWorld
             \<lparr>out = [Log (FetchingVoteImages ''one''),
                     Post vote_images_url [(''limit'', ''100''), (''url'', ''one'')],
                     Log (FetchedImages 3 ''one''),
                     Post submit_vote_url
                       [(''c_id'', ''one''), (''image_ids[]'', ''b''), (''image_ids[]'', ''c''),
                        (''layout'', ''scroll''), (''viewed_image_ids[]'', ''a''),
                        (''viewed_image_ids[]'', ''b''), (''viewed_image_ids[]'', ''c'')],
                     Log (VotesSubmitted ''one''), Sleep 2003],
               reqs = 2, rpos = 3\<rparr> =
          Log (FetchingVoteImages (title challenge_one))
          # Post vote_images_url [(''limit'', ''100''), (''url'', url challenge_one)] # evs"
    by blast
  note total = i1 [THEN conjunct2, THEN conjunct2, THEN conjunct2, THEN conjunct2]
  have tr: "\<exists>sel w1 w2.
      selectLoop pool_abc (title (vi_challenge (votes_abc challenge_one 60))) (random env3)
        (initialSelection (exposure_factor \<lparr>exposure_factor = 60\<rparr>),
         startWorld\<lparr>out := out startWorld @
              [Log (FetchingVoteImages (title challenge_one)),
               Post vote_images_url [(''limit'', ''100''), (''url'', url challenge_one)],
               Log (FetchedImages (length pool_abc) (title challenge_one))],
            reqs := reqs startWorld + 1\<rparr>) = Some (sel, w1) \<and>
      voteStep env3 1000 challenge_one startWorld = Some (Return (), w2) \<and>
      out w2 = out w1
         @ Post submit_vote_url
             ([(''c_id'', challenge_id (vi_challenge (votes_abc challenge_one 60)))]
                @ votedImages sel @ [(''layout'', ''scroll'')]
                @ map (\<lambda>img. (''viewed_image_ids[]'', image_id img)) pool_abc)
         # (case axios env3 (reqs w1) submit_vote_url
                   ([(''c_id'', challenge_id (vi_challenge (votes_abc challenge_one 60)))]
                      @ votedImages sel @ [(''layout'', ''scroll'')]
                      @ map (\<lambda>img. (''viewed_image_ids[]'', image_id img)) pool_abc) of
              None \<Rightarrow> [Error (PostRequestFailed submit_vote_url),
                        Error (FailedToSubmitVotes (title (vi_challenge (votes_abc challenge_one 60))))]
            | Some a \<Rightarrow> [Log (VotesSubmitted (title (vi_challenge (votes_abc challenge_one 60))))])
         @ [Sleep (2000 + random env3 (rpos w1) mod 3001)] \<and>
      reqs w2 = reqs w1 + 1 \<and> rpos w2 = rpos w1 + 1"
    by (rule total [THEN mp]) (intro conjI g1 g2 tok ans im ne vt ve d f)
  have loop: "selectLoop pool_abc ''one'' shiftedRobin (initialSelection 60, ?w0) =
      Some (\<lparr>uniqueImageIds = [''b'', ''c''],
              votedImages = [(''image_ids[]'', ''b''), (''image_ids[]'', ''c'')],
              exposureFactor = 140\<rparr>,
            \<lparr>out = [Log (FetchingVoteImages ''one''),
                 Post vote_images_url [(''limit'', ''100''), (''url'', ''one'')],
                 Log (FetchedImages 3 ''one'')], reqs = 1, rpos = 2\<rparr>)"
    by code_simp
  then have lp: "\<exists>sel w1. selectLoop pool_abc ''one'' shiftedRobin (initialSelection 60, ?w0)
        = Some (sel, w1) \<and>
      votedImages sel = [(''image_ids[]'', ''b''), (''image_ids[]'', ''c'')] \<and>
      reqs w1 = 1 \<and> rpos w1 = 2" by simp
  have gn: "getVoteImages env_ack challenge_one startWorld = Some (Return None, ?wn)"
    by code_simp
  note i2 = vote_gating [OF m1 r1 x1, where env = env_ack and now = 1000 and w = startWorld
      and wn = ?wn]
  note none = i2 [THEN conjunct2, THEN conjunct2, THEN conjunct2, THEN conjunct1]
  from none g1 g2 gn have vn: "voteStep env_ack 1000 challenge_one startWorld = Some (Return (), ?wn)"
    by blast
  have m3: "challenge_member challenge_unlisted = Some ?mu" by (simp add: challenge_unlisted_def)
  have r3: "member_ranking ?mu = Some ?ru"
    and x3: "ranking_exposure ?ru = Some \<lparr>exposure_factor = 100\<rparr>" by simp_all
  have ng: "\<not> (exposure_factor \<lparr>exposure_factor = 100\<rparr> < 100 \<and> start_time challenge_unlisted < 1000)"
    by simp
  note i3 = vote_gating [OF m3 r3 x3, where env = env3 and now = 1000 and w = startWorld]
  note skip = i3 [THEN conjunct1]
  from skip ng have v3: "voteStep env3 1000 challenge_unlisted startWorld = Some (Return (), startWorld)"
    by blast
  have np: "\<not> poolFetched challenge_unlisted (newEvents startWorld startWorld)"
    by (simp add: newEvents_def poolFetched_def)
  show ?thesis by (intro conjI m1 g1 g2 tok ans im ne vt ve d f run pf lp pre tr gn vn m3 ng v3 np)
qed

text \<open>
  C6 as stated fails: at second 1000 a challenge at exposure 50 that starts at second
  1000 is not fetched, though its start time is \<open>\<le> now\<close>; one second later it is
  fetched and voted on.
\<close>

theorem no_fetch_at_the_start_second:
  "challenge_member challenge_now =
     Some \<lparr>member_boost = Some \<lparr>state = ''AVAILABLE'', timeout = Some 1300\<rparr>,
           member_ranking =
             Some \<lparr>ranking_exposure = Some \<lparr>exposure_factor = 50\<rparr>,
                   entries = Some [\<lparr>entry_id = ''e1'', turbo = True\<rparr>,
                                   \<lparr>entry_id = ''e2'', turbo = False\<rparr>]\<rparr>\<rparr> \<and>
   (50::int) < 100 \<and> start_time challenge_now \<le> 1000 \<and>
   voteStep env3 1000 challenge_now startWorld = Some (Return (), startWorld) \<and>
   \<not> poolFetched challenge_now (newEvents startWorld startWorld) \<and>
   voteStep env3 1001 challenge_now startWorld =
     Some (Return (),
           \<lparr>out = [Log (FetchingVoteImages ''now''),
                   Post vote_images_url [(''limit'', ''100''), (''url'', ''now'')],
                   Log (FetchedImages 3 ''now''),
                   Post submit_vote_url
                     [(''c_id'', ''three''), (''image_ids[]'', ''b''), (''image_ids[]'', ''c''),
                      (''layout'', ''scroll''), (''viewed_image_ids[]'', ''a''),
                      (''viewed_image_ids[]'', ''b''), (''viewed_image_ids[]'', ''c'')],
                   Log (VotesSubmitted ''three''), Sleep 2003],
             reqs = 2, rpos = 3\<rparr>)"
proof -
  have a: "voteStep env3 1000 challenge_now startWorld = Some (Return (), startWorld)"
    by code_simp
  have b: "voteStep env3 1001 challenge_now startWorld =
     Some (Return (),
           \<lparr>out = [Log (FetchingVoteImages ''now''),
                   Post vote_images_url [(''limit'', ''100''), (''url'', ''now'')],
                   Log (FetchedImages 3 ''now''),
                   Post submit_vote_url
                     [(''c_id'', ''three''), (''image_ids[]'', ''b''), (''image_ids[]'', ''c''),
                      (''layout'', ''scroll''), (''viewed_image_ids[]'', ''a''),
                      (''viewed_image_ids[]'', ''b''), (''viewed_image_ids[]'', ''c'')],
                   Log (VotesSubmitted ''three''), Sleep 2003],
             reqs = 2, rpos = 3\<rparr>)"
    by code_simp
  from a b show ?thesis
    by (simp add: challenge_now_def mkChallenge_def newEvents_def poolFetched_def)
qed

text \<open>
  C7. The warning of line 168 is logged whenever the set reaches the size of the pool,
  also when the last image has taken the exposure to 100 or more: from 60, the only
  image of the pool (ratio 50) gives 110, the warning, and the submission of the
  selection.
\<close>

theorem warning_although_target_reached:
  "selectLoop pool_single ''one'' shiftedRobin (initialSelection 60, startWorld) =
     Some (\<lparr>uniqueImageIds = [''a''], votedImages = [(''image_ids[]'', ''a'')], exposureFactor = 110\<rparr>,
           \<lparr>out = [Warn (NotEnoughImages ''one'')], reqs = 0, rpos = 1\<rparr>) \<and>
   submitVotes env_ack votes_single startWorld =
     Some (Return (Some Ack),
           \<lparr>out = [Warn (NotEnoughImages ''one''),
                   Post submit_vote_url
                     [(''c_id'', ''one''), (''image_ids[]'', ''a''), (''layout'', ''scroll''),
                      (''viewed_image_ids[]'', ''a'')],
                   Log (VotesSubmitted ''one'')],
             reqs = 1, rpos = 1\<rparr>)"
  by (rule conjI) code_simp+

text \<open>
  C8. Not every failure of a challenge is caught. The reads of lines 286, 287 and 304 are
  outside the two \<^verbatim>\<open>try\<close> blocks: a first challenge without its ranking, or without its
  member data, ends the whole run with the TypeError; the second challenge, which is
  processed without an error when it comes alone, is never reached, and the completion
  is not logged. The same kind of error is caught where it is raised inside a \<^verbatim>\<open>try\<close>: of
  three challenges whose second fails in \<^verbatim>\<open>submitVotes\<close>, right after its pool is fetched,
  the first and the third are fully processed; and the TypeError of \<^verbatim>\<open>applyBoost\<close> on a
  ranking without entries is logged by line 299.
\<close>

theorem uncaught_reads_abort_the_batch:
  "axios env_broken 0 active_challenges_url [] = Some (Challenges [challenge_broken, challenge_one]) \<and>
   fetchChallengesAndVote env_broken startWorld =
     Some (Throw ''Cannot read properties of undefined (reading 'exposure')'',
           \<lparr>out = [Log GettingActiveChallenges, Post active_challenges_url []],
             reqs = 1, rpos = 0\<rparr>) \<and>
   axios env_memberless 0 active_challenges_url [] =
     Some (Challenges [challenge_memberless, challenge_one]) \<and>
   fetchChallengesAndVote env_memberless startWorld =
     Some (Throw ''Cannot destructure property 'boost' of 'challenge.member' as it is undefined.'',
           \<lparr>out = [Log GettingActiveChallenges, Post active_challenges_url []],
             reqs = 1, rpos = 0\<rparr>) \<and>
   challengeLoop env_broken 1000 [challenge_one] startWorld = Some (Return (), world_after_one) \<and>
   challengeLoop env3 1000 [challenge_one, challenge_two, challenge_three] startWorld =
     Some (Return (), world_after_three) \<and>
   boostStep env3 1000 challenge_unlisted startWorld =
     Some (Return (),
           \<lparr>out = [Log (BoostAvailable ''unlisted''), Log (ExecutingBoost 5),
                   Error (ErrorDuringBoost ''Cannot read properties of undefined (reading 'length')'')],
             reqs = 0, rpos = 0\<rparr>)"
proof -
  have a: "axios env_broken 0 active_challenges_url [] =
      Some (Challenges [challenge_broken, challenge_one])" by code_simp
  have b: "fetchChallengesAndVote env_broken startWorld =
     Some (Throw ''Cannot read properties of undefined (reading 'exposure')'',
           \<lparr>out = [Log GettingActiveChallenges, Post active_challenges_url []],
             reqs = 1, rpos = 0\<rparr>)" by code_simp
  have c: "axios env_memberless 0 active_challenges_url [] =
     Some (Challenges [challenge_memberless, challenge_one])" by code_simp
  have d: "fetchChallengesAndVote env_memberless startWorld =
     Some (Throw ''Cannot destructure property 'boost' of 'challenge.member' as it is undefined.'',
           \<lparr>out = [Log GettingActiveChallenges, Post active_challenges_url []],
             reqs = 1, rpos = 0\<rparr>)" by code_simp
  have e: "challengeLoop env_broken 1000 [challenge_one] startWorld =
      Some (Return (), world_after_one)" by code_simp
  have f: "challengeLoop env3 1000 [challenge_one, challenge_two, challenge_three] startWorld =
     Some (Return (), world_after_three)"
    by (simp add: andThen_def after_one after_two after_three ret_def)
  have g: "boostStep env3 1000 challenge_unlisted startWorld =
     Some (Return (),
           \<lparr>out = [Log (BoostAvailable ''unlisted''), Log (ExecutingBoost 5),
                   Error (ErrorDuringBoost ''Cannot read properties of undefined (reading 'length')'')],
             reqs = 0, rpos = 0\<rparr>)" by code_simp
  show ?thesis by (intro conjI a b c d e f g)
qed

text \<open>
  C9, as amended. For a pool whose ratios are all non-negative, the exposure after an
  iteration of the selection loop is at least the exposure before it.
\<close>

theorem exposure_never_decreases:
  assumes "imgs \<noteq> []" and "list_all (\<lambda>img. 0 \<le> ratio img) imgs"
    and "loopBody imgs ttl rnd (sel, w) = (b, sel', w')"
  shows "exposureFactor sel \<le> exposureFactor sel'"
  using assms(3)
proof (cases rule: loopBody_elim)
  case dup
  then show ?thesis by simp
next
  case fresh
  from assms(1) have "imgs ! (rnd (rpos w) mod length imgs) \<in> set imgs" by simp
  with assms(2) have "0 \<le> ratio (imgs ! (rnd (rpos w) mod length imgs))"
    by (simp add: list_all_iff)
  with fresh(2) show ?thesis by simp
qed

theorem exposure_never_decreases_witness:
  "pool_abc \<noteq> [] \<and> list_all (\<lambda>img. 0 \<le> ratio img) pool_abc \<and>
   loopBody pool_abc ''t'' shiftedRobin (initialSelection 60, startWorld) =
     (False, \<lparr>uniqueImageIds = [''b''], votedImages = [(''image_ids[]'', ''b'')], exposureFactor = 90\<rparr>,
      \<lparr>out = [], reqs = 0, rpos = 1\<rparr>) \<and>
   exposureFactor (initialSelection 60) \<le> 90"
proof -
  have ne: "pool_abc \<noteq> []" and pos: "list_all (\<lambda>img. 0 \<le> ratio img) pool_abc"
    by (simp_all add: pool_abc_def)
  have body: "loopBody pool_abc ''t'' shiftedRobin (initialSelection 60, startWorld) =
     (False, \<lparr>uniqueImageIds = [''b''], votedImages = [(''image_ids[]'', ''b'')], exposureFactor = 90\<rparr>,
      \<lparr>out = [], reqs = 0, rpos = 1\<rparr>)"
    by code_simp
  show ?thesis using ne pos body exposure_never_decreases [OF ne pos body] by simp
qed

text \<open>
  C9 as stated fails: an image with the ratio -5 takes the exposure from 50 to 45.
\<close>

theorem exposure_decreases_on_negative_ratio:
  "loopBody pool_negative ''t'' roundRobin (initialSelection 50, startWorld) =
     (True, \<lparr>uniqueImageIds = [''a''], votedImages = [(''image_ids[]'', ''a'')], exposureFactor = 45\<rparr>,
      \<lparr>out = [Warn (NotEnoughImages ''t'')], reqs = 0, rpos = 1\<rparr>) \<and>
   \<not> exposureFactor (initialSelection 50) \<le> 45"
  by (rule conjI, code_simp) (simp add: initialSelection_def)

text \<open>
  C10. With a token, a pool that is not empty and an exposure factor of 100 or more,
  \<^verbatim>\<open>submitVotes\<close> draws nothing and still sends the request: its form body has no
  \<^verbatim>\<open>image_ids[]\<close> parameter, and as \<^verbatim>\<open>viewed_image_ids[]\<close> the identifiers of the whole
  pool.
\<close>

theorem submission_with_nothing_chosen:
  assumes "tokenSet env" and "vi_images v = Some imgs" and "imgs \<noteq> []"
    and "vi_voting v = Some vt" and "voting_exposure vt = Some ex" and "100 \<le> exposure_factor ex"
  shows "\<exists>res w' d evs. submitVotes env v w = Some (res, w') \<and> rpos w' = rpos w \<and>
           out w' = out w @ Post submit_vote_url d # evs \<and> submissions evs = [] \<and>
           d = (''c_id'', challenge_id (vi_challenge v)) # (''layout'', ''scroll'')
                 # map (\<lambda>img. (''viewed_image_ids[]'', image_id img)) imgs \<and>
           params ''image_ids[]'' d = [] \<and>
           params ''viewed_image_ids[]'' d = map image_id imgs"
proof -
  let ?d = "(''c_id'', challenge_id (vi_challenge v)) # (''layout'', ''scroll'')
                 # map (\<lambda>img. (''viewed_image_ids[]'', image_id img)) imgs"
  have p1: "params ''image_ids[]'' ?d = []"
    by (induction imgs) (simp_all add: params_def)
  have p2: "params ''viewed_image_ids[]'' ?d = map image_id imgs"
    using params_viewed [of "challenge_id (vi_challenge v)" "[]" imgs] by simp
  have "\<exists>res w' evs. submitVotes env v w = Some (res, w') \<and> rpos w' = rpos w \<and>
           out w' = out w @ Post submit_vote_url ?d # evs \<and> submissions evs = []"
    using assms
    by (cases "axios env (reqs w) submit_vote_url ?d")
      (simp_all add: submitVotes_def Let_def andThen_def runSelectLoop_at_target
        initialSelection_def makePostRequest_def tokenSet_def emit_def ret_def submissions_def)
  with p1 p2 show ?thesis by blast
qed

theorem submission_with_nothing_chosen_witness:
  "tokenSet env_ack \<and> vi_images (votes_abc challenge_one 100) = Some pool_abc \<and> pool_abc \<noteq> [] \<and>
   vi_voting (votes_abc challenge_one 100) = Some \<lparr>voting_exposure = Some \<lparr>exposure_factor = 100\<rparr>\<rparr> \<and>
   voting_exposure \<lparr>voting_exposure = Some \<lparr>exposure_factor = 100\<rparr>\<rparr> = Some \<lparr>exposure_factor = 100\<rparr> \<and>
   100 \<le> exposure_factor \<lparr>exposure_factor = 100\<rparr> \<and>
   (\<exists>res w' d evs. submitVotes env_ack (votes_abc challenge_one 100) startWorld = Some (res, w') \<and>
      rpos w' = rpos startWorld \<and>
      out w' = out startWorld @ Post submit_vote_url d # evs \<and> submissions evs = [] \<and>
      d = (''c_id'', challenge_id (vi_challenge (votes_abc challenge_one 100))) # (''layout'', ''scroll'')
            # map (\<lambda>img. (''viewed_image_ids[]'', image_id img)) pool_abc \<and>
      params ''image_ids[]'' d = [] \<and>
      params ''viewed_image_ids[]'' d = map image_id pool_abc)"
proof -
  have tok: "tokenSet env_ack" by (simp add: tokenSet_def env_ack_def)
  have i: "vi_images (votes_abc challenge_one 100) = Some pool_abc" by (simp add: votes_abc_def)
  have ne: "pool_abc \<noteq> []" by (simp add: pool_abc_def)
  have vt: "vi_voting (votes_abc challenge_one 100) =
      Some \<lparr>voting_exposure = Some \<lparr>exposure_factor = 100\<rparr>\<rparr>" by (simp add: votes_abc_def)
  have ex: "voting_exposure \<lparr>voting_exposure = Some \<lparr>exposure_factor = 100\<rparr>\<rparr> =
      Some \<lparr>exposure_factor = 100\<rparr>" by simp
  have full: "100 \<le> exposure_factor \<lparr>exposure_factor = 100\<rparr>" by simp
  from submission_with_nothing_chosen [OF tok i ne vt ex full, of startWorld] tok i ne vt ex full
  show ?thesis by blast
qed

end
